theory Spec2Isabelle
  imports Main "HOL-Library.Monad_Syntax" "HOL-Library.AList" "HOL-Library.Tree"
begin

section \<open>Data model\<close>

text \<open>Colours of the red-black tree (enum \<open>NodeColor\<close>).\<close>

datatype NodeColor = RED | BLACK

text \<open>Metadata is a JSON-like object: keys in insertion order, scalar or nested values.\<close>

datatype json = JNum int | JStr string | JObj "(string \<times> json) list"

type_synonym IPieceMeta = "(string \<times> json) list"

text \<open>Class \<open>NodePiece\<close>: a slice of one buffer. JavaScript numbers are modelled as
  unbounded integers; \<open>meta\<close> is \<open>None\<close> for \<open>null\<close> and \<open>undefined\<close>.\<close>

record NodePiece =
  bufferIndex :: int
  start :: int
  length' :: int
  lineFeedCnt :: int
  meta :: "IPieceMeta option"

datatype PieceType = TEXT | NON_TEXT | LINE_FEED | STRUCTURAL | ALL_T

text \<open>The piece of a \<open>PieceNodeList\<close> node carries a \<open>pieceType\<close> besides the
  fields above.\<close>

record ListPiece = NodePiece +
  pieceType :: PieceType

text \<open>Interface \<open>Piece\<close>: what \<open>getPieces\<close> hands out.\<close>

datatype Piece = Piece (ptext: string) (plength: int) (pmeta: "IPieceMeta option")

text \<open>A tree node. Object references are addresses into the list of allocated nodes;
  address \<open>0\<close> is the shared sentinel.\<close>

record 'a PieceNode =
  piece :: "'a NodePiece_scheme"
  color :: NodeColor
  parent :: nat
  left :: nat
  right :: nat
  leftSize :: int
  rightSize :: int
  leftLineFeedCnt :: int
  rightLineFeedCnt :: int
  leftNodeCnt :: int
  rightNodeCnt :: int

definition SENTINEL :: nat where
  "SENTINEL = 0"

record 'a PieceNodeList =
  nodes :: "'a PieceNode list"
  root :: nat

record NodePosition =
  node :: nat
  reminder :: int
  startOffset :: int
  startLineFeedCnt :: int

abbreviation nd :: "('a, 'z) PieceNodeList_scheme \<Rightarrow> nat \<Rightarrow> 'a PieceNode" where
  "nd t n \<equiv> nodes t ! n"

text \<open>Modelled from the spec: the getters \<open>size\<close> and \<open>lineFeedCnt\<close> of a node
  (class \<open>PieceNode\<close> is not among the sources) read the node's piece.\<close>

definition size_n :: "'a PieceNode \<Rightarrow> int" where
  "size_n n = length' (piece n)"

definition lineFeedCnt_n :: "'a PieceNode \<Rightarrow> int" where
  "lineFeedCnt_n n = lineFeedCnt (piece n)"

subsection \<open>Methods of a node\<close>

text \<open>Modelled from the spec: class \<open>PieceNode\<close> (\<open>pieceNode.ts\<close>) is not among the
  sources, only its callers are. The definitions of this subsection follow the spec's
  words: the sentinel stands for every absent child, is black and has zero aggregates;
  a node is the root when it has no parent; a fresh node is red and unlinked.\<close>

definition sentinelNode :: "'a NodePiece_scheme \<Rightarrow> 'a PieceNode" where
  "sentinelNode p =
     \<lparr>piece = p, color = BLACK, parent = SENTINEL, left = SENTINEL, right = SENTINEL,
      leftSize = 0, rightSize = 0, leftLineFeedCnt = 0, rightLineFeedCnt = 0,
      leftNodeCnt = 0, rightNodeCnt = 0\<rparr>"

definition createPieceNode :: "'a NodePiece_scheme \<Rightarrow> 'a PieceNode" where
  "createPieceNode p =
     \<lparr>piece = p, color = RED, parent = SENTINEL, left = SENTINEL, right = SENTINEL,
      leftSize = 0, rightSize = 0, leftLineFeedCnt = 0, rightLineFeedCnt = 0,
      leftNodeCnt = 0, rightNodeCnt = 0\<rparr>"

text \<open>\<open>new PieceNode(piece)\<close>: the new object gets the next free address.\<close>

definition newNode :: "'a NodePiece_scheme \<Rightarrow> ('a, 'z) PieceNodeList_scheme \<Rightarrow> nat \<times> ('a, 'z) PieceNodeList_scheme" where
  "newNode p t = (length (nodes t), t\<lparr>nodes := nodes t @ [createPieceNode p]\<rparr>)"

definition isNil :: "nat \<Rightarrow> bool" where
  "isNil n = (n = SENTINEL)"

definition isNotNil :: "nat \<Rightarrow> bool" where
  "isNotNil n = (n \<noteq> SENTINEL)"

definition isRoot :: "('a, 'z) PieceNodeList_scheme \<Rightarrow> nat \<Rightarrow> bool" where
  "isRoot t n = (parent (nd t n) = SENTINEL)"

definition isLeft :: "('a, 'z) PieceNodeList_scheme \<Rightarrow> nat \<Rightarrow> bool" where
  "isLeft t n = (left (nd t (parent (nd t n))) = n)"

definition isRight :: "('a, 'z) PieceNodeList_scheme \<Rightarrow> nat \<Rightarrow> bool" where
  "isRight t n = (right (nd t (parent (nd t n))) = n)"

definition isRed :: "('a, 'z) PieceNodeList_scheme \<Rightarrow> nat \<Rightarrow> bool" where
  "isRed t n = (color (nd t n) = RED)"

definition isBlack :: "('a, 'z) PieceNodeList_scheme \<Rightarrow> nat \<Rightarrow> bool" where
  "isBlack t n = (color (nd t n) = BLACK)"

definition setNode :: "nat \<Rightarrow> ('a PieceNode \<Rightarrow> 'a PieceNode) \<Rightarrow> ('a, 'z) PieceNodeList_scheme \<Rightarrow> ('a, 'z) PieceNodeList_scheme" where
  "setNode n f t = t\<lparr>nodes := (nodes t)[n := f (nd t n)]\<rparr>"

definition toRed :: "nat \<Rightarrow> ('a, 'z) PieceNodeList_scheme \<Rightarrow> ('a, 'z) PieceNodeList_scheme" where
  "toRed n = setNode n (\<lambda>x. x\<lparr>color := RED\<rparr>)"

definition toBlack :: "nat \<Rightarrow> ('a, 'z) PieceNodeList_scheme \<Rightarrow> ('a, 'z) PieceNodeList_scheme" where
  "toBlack n = setNode n (\<lambda>x. x\<lparr>color := BLACK\<rparr>)"

definition setColor :: "nat \<Rightarrow> NodeColor \<Rightarrow> ('a, 'z) PieceNodeList_scheme \<Rightarrow> ('a, 'z) PieceNodeList_scheme" where
  "setColor n c = setNode n (\<lambda>x. x\<lparr>color := c\<rparr>)"

definition setParent :: "nat \<Rightarrow> nat \<Rightarrow> ('a, 'z) PieceNodeList_scheme \<Rightarrow> ('a, 'z) PieceNodeList_scheme" where
  "setParent n p = setNode n (\<lambda>x. x\<lparr>parent := p\<rparr>)"

definition setLeft :: "nat \<Rightarrow> nat \<Rightarrow> ('a, 'z) PieceNodeList_scheme \<Rightarrow> ('a, 'z) PieceNodeList_scheme" where
  "setLeft n l = setNode n (\<lambda>x. x\<lparr>left := l\<rparr>)"

definition setRight :: "nat \<Rightarrow> nat \<Rightarrow> ('a, 'z) PieceNodeList_scheme \<Rightarrow> ('a, 'z) PieceNodeList_scheme" where
  "setRight n r = setNode n (\<lambda>x. x\<lparr>right := r\<rparr>)"

definition setPiece :: "nat \<Rightarrow> 'a NodePiece_scheme \<Rightarrow> ('a, 'z) PieceNodeList_scheme \<Rightarrow> ('a, 'z) PieceNodeList_scheme" where
  "setPiece n p = setNode n (\<lambda>x. x\<lparr>piece := p\<rparr>)"

text \<open>\<open>lefest\<close> and \<open>rightest\<close>: the leftmost and the rightmost node of a subtree.\<close>

partial_function (option) lefest :: "('a, 'z) PieceNodeList_scheme \<Rightarrow> nat \<Rightarrow> nat option" where
  "lefest t n = (if left (nd t n) \<noteq> SENTINEL then lefest t (left (nd t n)) else Some n)"

declare lefest.simps [code]

partial_function (option) rightest :: "('a, 'z) PieceNodeList_scheme \<Rightarrow> nat \<Rightarrow> nat option" where
  "rightest t n = (if right (nd t n) \<noteq> SENTINEL then rightest t (right (nd t n)) else Some n)"

declare rightest.simps [code]

text \<open>In-order neighbours: the leftmost node of the right subtree, else the first
  ancestor reached from a left child (the sentinel when there is none).\<close>

partial_function (option) climbRight :: "('a, 'z) PieceNodeList_scheme \<Rightarrow> nat \<Rightarrow> nat option" where
  "climbRight t n =
     (if parent (nd t n) \<noteq> SENTINEL \<and> right (nd t (parent (nd t n))) = n
      then climbRight t (parent (nd t n)) else Some (parent (nd t n)))"

declare climbRight.simps [code]

partial_function (option) climbLeft :: "('a, 'z) PieceNodeList_scheme \<Rightarrow> nat \<Rightarrow> nat option" where
  "climbLeft t n =
     (if parent (nd t n) \<noteq> SENTINEL \<and> left (nd t (parent (nd t n))) = n
      then climbLeft t (parent (nd t n)) else Some (parent (nd t n)))"

declare climbLeft.simps [code]

definition successor :: "('a, 'z) PieceNodeList_scheme \<Rightarrow> nat \<Rightarrow> nat option" where
  "successor t n =
     (if n = SENTINEL then Some SENTINEL
      else if right (nd t n) \<noteq> SENTINEL then lefest t (right (nd t n))
      else climbRight t n)"

definition predecessor :: "('a, 'z) PieceNodeList_scheme \<Rightarrow> nat \<Rightarrow> nat option" where
  "predecessor t n =
     (if n = SENTINEL then Some SENTINEL
      else if left (nd t n) \<noteq> SENTINEL then rightest t (left (nd t n))
      else climbLeft t n)"

text \<open>\<open>updateMeta\<close> recomputes the six aggregates of a node from its two children;
  \<open>updateMetaUpward\<close> does so for the node and each ancestor up to the root.\<close>

definition subtreeSize :: "('a, 'z) PieceNodeList_scheme \<Rightarrow> nat \<Rightarrow> int" where
  "subtreeSize t c =
     (if c = SENTINEL then 0 else leftSize (nd t c) + rightSize (nd t c) + size_n (nd t c))"

definition subtreeLineFeedCnt :: "('a, 'z) PieceNodeList_scheme \<Rightarrow> nat \<Rightarrow> int" where
  "subtreeLineFeedCnt t c =
     (if c = SENTINEL then 0
      else leftLineFeedCnt (nd t c) + rightLineFeedCnt (nd t c) + lineFeedCnt_n (nd t c))"

definition subtreeNodeCnt :: "('a, 'z) PieceNodeList_scheme \<Rightarrow> nat \<Rightarrow> int" where
  "subtreeNodeCnt t c =
     (if c = SENTINEL then 0 else leftNodeCnt (nd t c) + rightNodeCnt (nd t c) + 1)"

definition updateMeta :: "nat \<Rightarrow> ('a, 'z) PieceNodeList_scheme \<Rightarrow> ('a, 'z) PieceNodeList_scheme" where
  "updateMeta n t =
     setNode n (\<lambda>x. x\<lparr>leftSize := subtreeSize t (left x),
                        rightSize := subtreeSize t (right x),
                        leftLineFeedCnt := subtreeLineFeedCnt t (left x),
                        rightLineFeedCnt := subtreeLineFeedCnt t (right x),
                        leftNodeCnt := subtreeNodeCnt t (left x),
                        rightNodeCnt := subtreeNodeCnt t (right x)\<rparr>) t"

partial_function (option) updateMetaUpward :: "nat \<Rightarrow> ('a, 'z) PieceNodeList_scheme \<Rightarrow> ('a, 'z) PieceNodeList_scheme option" where
  "updateMetaUpward n t =
     (if n = SENTINEL then Some t
      else updateMetaUpward (parent (nd t n)) (updateMeta n t))"

declare updateMetaUpward.simps [code]

text \<open>\<open>before\<close> and \<open>after\<close>: the new node becomes the left child when that slot is
  free, otherwise the right child of the in-order predecessor (symmetric for \<open>after\<close>).\<close>

definition before :: "nat \<Rightarrow> nat \<Rightarrow> ('a, 'z) PieceNodeList_scheme \<Rightarrow> ('a, 'z) PieceNodeList_scheme option" where
  "before ref new t =
     (if left (nd t ref) = SENTINEL then Some (setParent new ref (setLeft ref new t))
      else do {
        p \<leftarrow> rightest t (left (nd t ref));
        Some (setParent new p (setRight p new t))
      })"

definition after :: "nat \<Rightarrow> nat \<Rightarrow> ('a, 'z) PieceNodeList_scheme \<Rightarrow> ('a, 'z) PieceNodeList_scheme option" where
  "after ref new t =
     (if right (nd t ref) = SENTINEL then Some (setParent new ref (setRight ref new t))
      else do {
        p \<leftarrow> lefest t (right (nd t ref));
        Some (setParent new p (setLeft p new t))
      })"

text \<open>\<open>detach\<close> unlinks a removed node.\<close>

definition detach :: "nat \<Rightarrow> ('a, 'z) PieceNodeList_scheme \<Rightarrow> ('a, 'z) PieceNodeList_scheme" where
  "detach n = setNode n (\<lambda>x. x\<lparr>parent := SENTINEL, left := SENTINEL, right := SENTINEL\<rparr>)"

subsection \<open>Getters of \<open>PieceNodeList\<close>\<close>

definition size_l :: "('a, 'z) PieceNodeList_scheme \<Rightarrow> int" where
  "size_l t = leftSize (nd t (root t)) + rightSize (nd t (root t)) + size_n (nd t (root t))"

definition nodeCnt :: "('a, 'z) PieceNodeList_scheme \<Rightarrow> int" where
  "nodeCnt t = leftNodeCnt (nd t (root t)) + rightNodeCnt (nd t (root t)) + 1"

definition lineFeedCnt_l :: "('a, 'z) PieceNodeList_scheme \<Rightarrow> int" where
  "lineFeedCnt_l t =
     leftLineFeedCnt (nd t (root t)) + rightLineFeedCnt (nd t (root t)) + lineFeedCnt_n (nd t (root t))"

subsection \<open>\<open>get\<close>\<close>

partial_function (option) get_loop :: "('a, 'z) PieceNodeList_scheme \<Rightarrow> nat \<Rightarrow> int \<Rightarrow> nat option" where
  "get_loop t n index =
     (if n \<noteq> SENTINEL then
        (if leftNodeCnt (nd t n) > index then get_loop t (left (nd t n)) index
         else if leftNodeCnt (nd t n) + 1 = index then Some n
         else get_loop t (right (nd t n)) (index - leftLineFeedCnt (nd t n) - 1))
      else Some n)"

declare get_loop.simps [code]

definition get :: "('a, 'z) PieceNodeList_scheme \<Rightarrow> int \<Rightarrow> nat option" where
  "get t index =
     (if index > 0 \<and> index \<le> nodeCnt t then get_loop t (root t) index else Some (root t))"

subsection \<open>\<open>find\<close>\<close>

partial_function (option) find_loop ::
  "('a, 'z) PieceNodeList_scheme \<Rightarrow> nat \<Rightarrow> int \<Rightarrow> int \<Rightarrow> int \<Rightarrow> NodePosition option" where
  "find_loop t n offset so slf =
     (if n \<noteq> SENTINEL then
        (if leftSize (nd t n) > offset then find_loop t (left (nd t n)) offset so slf
         else if leftSize (nd t n) + size_n (nd t n) > offset then
           Some \<lparr>node = n, reminder = offset - leftSize (nd t n),
                 startOffset = so + leftSize (nd t n),
                 startLineFeedCnt = slf + leftLineFeedCnt (nd t n)\<rparr>
         else if right (nd t n) = SENTINEL then
           Some \<lparr>node = n, reminder = 0, startOffset = so, startLineFeedCnt = slf\<rparr>
         else find_loop t (right (nd t n)) (offset - (leftSize (nd t n) + size_n (nd t n)))
                (so + (leftSize (nd t n) + size_n (nd t n)))
                (slf + (leftLineFeedCnt (nd t n) + lineFeedCnt_n (nd t n))))
      else Some \<lparr>node = n, reminder = 0, startOffset = so, startLineFeedCnt = slf\<rparr>)"

declare find_loop.simps [code]

definition find :: "('a, 'z) PieceNodeList_scheme \<Rightarrow> int \<Rightarrow> NodePosition option" where
  "find t offset =
     (if offset \<le> 0 then do {
        n \<leftarrow> lefest t (root t);
        Some \<lparr>node = n, reminder = 0, startOffset = 0, startLineFeedCnt = 0\<rparr>
      }
      else if offset \<ge> size_l t then do {
        lastNode \<leftarrow> rightest t (root t);
        Some \<lparr>node = lastNode, reminder = length' (piece (nd t lastNode)),
              startOffset = size_l t - length' (piece (nd t lastNode)),
              startLineFeedCnt = lineFeedCnt_l t - lineFeedCnt (piece (nd t lastNode))\<rparr>
      }
      else find_loop t (root t) offset 0 0)"

subsection \<open>Rotations and \<open>transplant\<close>\<close>

definition leftRotate :: "nat \<Rightarrow> ('a, 'z) PieceNodeList_scheme \<Rightarrow> ('a, 'z) PieceNodeList_scheme" where
  "leftRotate x t0 =
     (let y = right (nd t0 x);
          b = left (nd t0 y);
          t1 = setRight x b t0;
          t2 = (if isNotNil b then setParent b x t1 else t1);
          t3 = setParent y (parent (nd t2 x)) t2;
          t4 = (if isRoot t3 x then t3\<lparr>root := y\<rparr>
                else if isLeft t3 x then setLeft (parent (nd t3 x)) y t3
                else setRight (parent (nd t3 x)) y t3);
          t5 = setLeft y x t4;
          t6 = setParent x y t5;
          t7 = updateMeta x t6
      in updateMeta y t7)"

definition rightRotate :: "nat \<Rightarrow> ('a, 'z) PieceNodeList_scheme \<Rightarrow> ('a, 'z) PieceNodeList_scheme" where
  "rightRotate y t0 =
     (let x = left (nd t0 y);
          b = right (nd t0 x);
          t1 = setLeft y b t0;
          t2 = (if isNotNil b then setParent b y t1 else t1);
          t3 = setParent x (parent (nd t2 y)) t2;
          t4 = (if isRoot t3 y then t3\<lparr>root := x\<rparr>
                else if isLeft t3 y then setLeft (parent (nd t3 y)) x t3
                else setRight (parent (nd t3 y)) x t3);
          t5 = setRight x y t4;
          t6 = setParent y x t5;
          t7 = updateMeta y t6
      in updateMeta x t7)"

definition transplant :: "nat \<Rightarrow> nat \<Rightarrow> ('a, 'z) PieceNodeList_scheme \<Rightarrow> ('a, 'z) PieceNodeList_scheme" where
  "transplant x y t0 =
     (let t1 = (if isRoot t0 x then t0\<lparr>root := y\<rparr>
                else if isLeft t0 x then setLeft (parent (nd t0 x)) y t0
                else setRight (parent (nd t0 x)) y t0)
      in setParent y (parent (nd t1 x)) t1)"

subsection \<open>\<open>insertFixup\<close>\<close>

partial_function (option) insertFixup_loop :: "nat \<Rightarrow> ('a, 'z) PieceNodeList_scheme \<Rightarrow> ('a, 'z) PieceNodeList_scheme option" where
  "insertFixup_loop n t =
     (if isRed t (parent (nd t n)) then
        (let p = parent (nd t n); g = parent (nd t p) in
         if isLeft t p then
           (let uncle = right (nd t g) in
            if isRed t uncle then insertFixup_loop g (toRed g (toBlack uncle (toBlack p t)))
            else if isRight t n then insertFixup_loop p (leftRotate p t)
            else insertFixup_loop n (rightRotate g (toRed g (toBlack p t))))
         else
           (let uncle = left (nd t g) in
            if isRed t uncle then insertFixup_loop g (toRed g (toBlack uncle (toBlack p t)))
            else if isLeft t n then insertFixup_loop p (rightRotate p t)
            else insertFixup_loop n (leftRotate g (toRed g (toBlack p t)))))
      else Some t)"

declare insertFixup_loop.simps [code]

definition insertFixup :: "nat \<Rightarrow> ('a, 'z) PieceNodeList_scheme \<Rightarrow> ('a, 'z) PieceNodeList_scheme option" where
  "insertFixup n t = do {
     t' \<leftarrow> insertFixup_loop n t;
     Some (toBlack (root t') t')
   }"

subsection \<open>\<open>insertBefore\<close>, \<open>insertAfter\<close>, \<open>prepend\<close>, \<open>append\<close>\<close>

definition insertBefore :: "nat \<Rightarrow> nat \<Rightarrow> ('a, 'z) PieceNodeList_scheme \<Rightarrow> ('a, 'z) PieceNodeList_scheme option" where
  "insertBefore new ref t = do {
     t1 \<leftarrow> (if ref = SENTINEL then Some (t\<lparr>root := new\<rparr>) else before ref new t);
     t2 \<leftarrow> updateMetaUpward new t1;
     insertFixup new t2
   }"

definition insertAfter :: "nat \<Rightarrow> nat \<Rightarrow> ('a, 'z) PieceNodeList_scheme \<Rightarrow> ('a, 'z) PieceNodeList_scheme option" where
  "insertAfter new ref t = do {
     t1 \<leftarrow> (if ref = SENTINEL then Some (t\<lparr>root := new\<rparr>) else after ref new t);
     t2 \<leftarrow> updateMetaUpward new t1;
     insertFixup new t2
   }"

definition firstNode :: "('a, 'z) PieceNodeList_scheme \<Rightarrow> nat option" where
  "firstNode t = get t 1"

definition lastNode :: "('a, 'z) PieceNodeList_scheme \<Rightarrow> nat option" where
  "lastNode t = get t (nodeCnt t)"

definition prepend :: "nat \<Rightarrow> ('a, 'z) PieceNodeList_scheme \<Rightarrow> ('a, 'z) PieceNodeList_scheme option" where
  "prepend new t = do { ref \<leftarrow> firstNode t; insertBefore new ref t }"

definition append :: "nat \<Rightarrow> ('a, 'z) PieceNodeList_scheme \<Rightarrow> ('a, 'z) PieceNodeList_scheme option" where
  "append new t = do { ref \<leftarrow> lastNode t; insertAfter new ref t }"

subsection \<open>\<open>deleteNode\<close> and \<open>deleteNodeFixup\<close>\<close>

partial_function (option) deleteNodeFixup_loop :: "nat \<Rightarrow> ('a, 'z) PieceNodeList_scheme \<Rightarrow> (nat \<times> ('a, 'z) PieceNodeList_scheme) option" where
  "deleteNodeFixup_loop x t =
     (if \<not> isRoot t x \<and> isBlack t x then
        (if isLeft t x then
           (let w0 = right (nd t (parent (nd t x)));
                t1 = (if isRed t w0
                      then leftRotate (parent (nd t x)) (toRed (parent (nd t x)) (toBlack w0 t))
                      else t);
                w = (if isRed t w0 then right (nd t1 (parent (nd t1 x))) else w0)
            in if isBlack t1 (left (nd t1 w)) \<and> isBlack t1 (right (nd t1 w)) then
                 deleteNodeFixup_loop (parent (nd t1 x)) (toRed w t1)
               else if isBlack t1 (right (nd t1 w)) then
                 deleteNodeFixup_loop x (rightRotate w (toRed w (toBlack (left (nd t1 w)) t1)))
               else
                 (let t2 = setColor w (color (nd t1 (parent (nd t1 x)))) t1;
                      t3 = toBlack (parent (nd t2 x)) t2;
                      t4 = toBlack (right (nd t3 w)) t3;
                      t5 = leftRotate (parent (nd t4 x)) t4
                  in deleteNodeFixup_loop (root t5) t5))
         else
           (let w0 = left (nd t (parent (nd t x)));
                t1 = (if isRed t w0
                      then rightRotate (parent (nd t x)) (toRed (parent (nd t x)) (toBlack w0 t))
                      else t);
                w = (if isRed t w0 then left (nd t1 (parent (nd t1 x))) else w0)
            in if isBlack t1 (right (nd t1 w)) \<and> isBlack t1 (left (nd t1 w)) then
                 deleteNodeFixup_loop (parent (nd t1 x)) (toRed w t1)
               else if isBlack t1 (left (nd t1 w)) then
                 deleteNodeFixup_loop x (leftRotate w (toRed w (toBlack (right (nd t1 w)) t1)))
               else
                 (let t2 = setColor w (color (nd t1 (parent (nd t1 x)))) t1;
                      t3 = toBlack (parent (nd t2 x)) t2;
                      t4 = toBlack (left (nd t3 w)) t3;
                      t5 = rightRotate (parent (nd t4 x)) t4
                  in deleteNodeFixup_loop (root t5) t5)))
      else Some (x, t))"

declare deleteNodeFixup_loop.simps [code]

definition deleteNodeFixup :: "nat \<Rightarrow> ('a, 'z) PieceNodeList_scheme \<Rightarrow> ('a, 'z) PieceNodeList_scheme option" where
  "deleteNodeFixup x t = do {
     (x', t') \<leftarrow> deleteNodeFixup_loop x t;
     Some (toBlack x' t')
   }"

definition deleteNode :: "nat \<Rightarrow> ('a, 'z) PieceNodeList_scheme \<Rightarrow> ('a, 'z) PieceNodeList_scheme option" where
  "deleteNode z t0 = do {
     (x, yOriginalColor, t1) \<leftarrow>
       (if isNil (left (nd t0 z)) then do {
          let x = right (nd t0 z);
          let ta = transplant z (right (nd t0 z)) t0;
          tb \<leftarrow> updateMetaUpward (parent (nd ta x)) ta;
          Some (x, color (nd t0 z), tb)
        }
        else if isNil (right (nd t0 z)) then do {
          let x = left (nd t0 z);
          let ta = transplant z (left (nd t0 z)) t0;
          tb \<leftarrow> updateMetaUpward (parent (nd ta x)) ta;
          Some (x, color (nd t0 z), tb)
        }
        else do {
          y \<leftarrow> lefest t0 (right (nd t0 z));
          let x = right (nd t0 y);
          let ta = (if parent (nd t0 y) = z then setParent x y t0
                    else (let u1 = transplant y (right (nd t0 y)) t0;
                              u2 = setRight y (right (nd u1 z)) u1
                          in setParent (right (nd u2 y)) y u2));
          let tb = transplant z y ta;
          let tc = setLeft y (left (nd tb z)) tb;
          let td = setParent (left (nd tc y)) y tc;
          let te = setColor y (color (nd td z)) td;
          tf \<leftarrow> updateMetaUpward (parent (nd te x)) te;
          tg \<leftarrow> updateMetaUpward y tf;
          Some (x, color (nd t0 y), tg)
        });
     t2 \<leftarrow> (if yOriginalColor = BLACK then deleteNodeFixup x t1 else Some t1);
     Some (detach z t2)
   }"

subsection \<open>\<open>PieceNodeList.splitNode\<close>\<close>

text \<open>The call with \<open>structural = false\<close> (the default). The branch for structural
  pieces uses \<open>above\<close>, \<open>removeChild\<close> and \<open>appendChild\<close>, which are not among the
  sources. \<open>cloneDeep\<close> of an immutable value is the value itself.\<close>

definition splitNode_l ::
  "nat \<Rightarrow> int \<Rightarrow> (unit ListPiece_ext, 'z) PieceNodeList_scheme \<Rightarrow> (nat \<times> nat \<times> (unit ListPiece_ext, 'z) PieceNodeList_scheme) option" where
  "splitNode_l pieceNode offset t0 =
     (let p = piece (nd t0 pieceNode);
          leftPiece = \<lparr>bufferIndex = bufferIndex p, start = start p, length' = offset,
                       lineFeedCnt = 0, meta = meta p, pieceType = pieceType p\<rparr>;
          t1 = setPiece pieceNode (p\<lparr>start := start p + offset\<rparr>) t0;
          t2 = setPiece pieceNode ((piece (nd t1 pieceNode))\<lparr>length' := length' (piece (nd t1 pieceNode)) - offset\<rparr>) t1;
          t3 = setPiece pieceNode ((piece (nd t2 pieceNode))\<lparr>lineFeedCnt := lineFeedCnt (piece (nd t2 pieceNode)) - 0\<rparr>) t2;
          (leftNode, t4) = newNode leftPiece t3
      in do {
        t5 \<leftarrow> insertBefore pieceNode leftNode t4;
        Some (leftNode, pieceNode, t5)
      })"

section \<open>Metadata merge and patches\<close>

datatype PatchOp = op_replace | op_add | op_remove

datatype Patch = Patch (op: PatchOp) (path: "string list") (pvalue: "json option")

definition isObj :: "json \<Rightarrow> bool" where
  "isObj v = (case v of JObj _ \<Rightarrow> True | _ \<Rightarrow> False)"

text \<open>Modelled from the spec: \<open>mergeMeta\<close> (\<open>meta.ts\<close>) is not among the sources, its
  test is. Source is overlaid onto target; a key of both with equal values gives no
  patch, with differing values a \<open>replace\<close> (inverse: \<open>replace\<close> with the old value), a key
  of the source only an \<open>add\<close> (inverse: \<open>remove\<close>); within an object, nested objects are
  emitted before sibling scalars, keys in insertion order. The result is the triple
  (merged, forward patches, inverse patches), or \<open>null\<close> when there is no patch. A \<open>null\<close>
  target counts as the empty object.\<close>

fun mergeValue :: "string list \<Rightarrow> json option \<Rightarrow> json \<Rightarrow> json \<times> Patch list \<times> Patch list"
  and mergeFields :: "bool \<Rightarrow> string list \<Rightarrow> IPieceMeta \<Rightarrow> (string \<times> json) list \<Rightarrow>
        IPieceMeta \<times> Patch list \<times> Patch list" where
  "mergeValue pth (Some (JObj t)) (JObj s) =
     (let (m1, f1, i1) = mergeFields True pth t s;
          (m2, f2, i2) = mergeFields False pth m1 s
      in (JObj m2, f1 @ f2, i1 @ i2))"
| "mergeValue pth (Some old) new =
     (if old = new then (old, [], [])
      else (new, [Patch op_replace pth (Some new)], [Patch op_replace pth (Some old)]))"
| "mergeValue pth None new = (new, [Patch op_add pth (Some new)], [Patch op_remove pth None])"
| "mergeFields objs pth t [] = (t, [], [])"
| "mergeFields objs pth t ((k, v) # rest) =
     (if isObj v = objs then
        (let (v', f, i) = mergeValue (pth @ [k]) (map_of t k) v;
             (t', f', i') = mergeFields objs pth (AList.update k v' t) rest
         in (t', f @ f', i @ i'))
      else mergeFields objs pth t rest)"

definition mergeMeta ::
  "IPieceMeta option \<Rightarrow> IPieceMeta \<Rightarrow> (IPieceMeta \<times> Patch list \<times> Patch list) option" where
  "mergeMeta target source =
     (case mergeValue [] (Some (JObj (case target of None \<Rightarrow> [] | Some t \<Rightarrow> t))) (JObj source) of
        (JObj merged, forwardPatches, inversePs) \<Rightarrow>
          if forwardPatches = [] then None else Some (merged, forwardPatches, inversePs)
      | _ \<Rightarrow> None)"

text \<open>\<open>applyPatches\<close> of the library \<open>immer\<close>: each patch sets or removes the value at
  its path; a path that does not resolve makes the call fail.\<close>

fun setAt :: "string list \<Rightarrow> json \<Rightarrow> IPieceMeta \<Rightarrow> IPieceMeta option" where
  "setAt [] v obj = None"
| "setAt [k] v obj = Some (AList.update k v obj)"
| "setAt (k # ks) v obj =
     (case map_of obj k of
        Some (JObj inner) \<Rightarrow> map_option (\<lambda>r. AList.update k (JObj r) obj) (setAt ks v inner)
      | _ \<Rightarrow> None)"

fun removeAt :: "string list \<Rightarrow> IPieceMeta \<Rightarrow> IPieceMeta option" where
  "removeAt [] obj = None"
| "removeAt [k] obj = Some (AList.delete k obj)"
| "removeAt (k # ks) obj =
     (case map_of obj k of
        Some (JObj inner) \<Rightarrow> map_option (\<lambda>r. AList.update k (JObj r) obj) (removeAt ks inner)
      | _ \<Rightarrow> None)"

definition applyPatch :: "Patch \<Rightarrow> IPieceMeta \<Rightarrow> IPieceMeta option" where
  "applyPatch p obj =
     (case (op p, pvalue p) of
        (op_remove, _) \<Rightarrow> removeAt (path p) obj
      | (_, Some v) \<Rightarrow> setAt (path p) v obj
      | (_, None) \<Rightarrow> None)"

fun applyPatches :: "IPieceMeta \<Rightarrow> Patch list \<Rightarrow> IPieceMeta option" where
  "applyPatches obj [] = Some obj"
| "applyPatches obj (p # ps) = (case applyPatch p obj of None \<Rightarrow> None | Some obj' \<Rightarrow> applyPatches obj' ps)"

section \<open>Change history\<close>

datatype DiffType = diff_insert | diff_remove | diff_replace

datatype Diff = Diff (dtype: DiffType) (lineNumber: int)

datatype PiecePatch = PiecePatch (patchStartOffset: int) (patchLength: int) (inversePatches: "Patch list")

text \<open>Modelled from the spec: \<open>change.ts\<close> is not among the sources. An
  \<open>InsertChange\<close> holds the offset, the length of the inserted text, the slice of the add
  buffer holding it, the meta and the diffs; a \<open>DeleteChange\<close> the offset, the length and
  the captured pieces; a \<open>FormatChange\<close> the offset, the length, the meta and the piece
  patches.\<close>

datatype Change =
    InsertChange int int "int \<times> int \<times> int" "IPieceMeta option" "Diff list"
  | DeleteChange int int "NodePiece list" "Diff list"
  | FormatChange int int IPieceMeta "PiecePatch list" "Diff list"

definition createInsertChange ::
  "int \<Rightarrow> int \<times> int \<times> int \<Rightarrow> IPieceMeta option \<Rightarrow> Diff list \<Rightarrow> Change" where
  "createInsertChange offset txt m diffs = InsertChange offset (snd (snd txt)) txt m diffs"

definition createDeleteChange :: "int \<Rightarrow> int \<Rightarrow> NodePiece list \<Rightarrow> Diff list \<Rightarrow> Change" where
  "createDeleteChange offset len pieces diffs = DeleteChange offset len pieces diffs"

definition createFormatChange ::
  "int \<Rightarrow> int \<Rightarrow> IPieceMeta \<Rightarrow> PiecePatch list \<Rightarrow> Diff list \<Rightarrow> Change" where
  "createFormatChange offset len m patches diffs = FormatChange offset len m patches diffs"

text \<open>Modelled from the spec: class \<open>ChangeStack\<close> is not among the sources. An ungrouped
  push becomes a singleton group; between \<open>startChange\<close> and \<open>endChange\<close> every push joins
  the open group; a push discards the redo stack. While a group is undone or redone the
  pushes of the inner routines are not recorded.\<close>

record ChangeStack =
  undoStack :: "Change list list"
  redoStack :: "Change list list"
  openGroup :: "Change list option"
  applying :: bool

definition emptyChangeStack :: ChangeStack where
  "emptyChangeStack = \<lparr>undoStack = [], redoStack = [], openGroup = None, applying = False\<rparr>"

definition stack_startChange :: "ChangeStack \<Rightarrow> ChangeStack" where
  "stack_startChange h = (case openGroup h of None \<Rightarrow> h\<lparr>openGroup := Some []\<rparr> | Some _ \<Rightarrow> h)"

definition stack_endChange :: "ChangeStack \<Rightarrow> ChangeStack" where
  "stack_endChange h =
     (case openGroup h of
        None \<Rightarrow> h
      | Some g \<Rightarrow> h\<lparr>undoStack := g # undoStack h, openGroup := None\<rparr>)"

definition stack_push :: "Change \<Rightarrow> ChangeStack \<Rightarrow> ChangeStack" where
  "stack_push c h =
     (if applying h then h
      else case openGroup h of
        None \<Rightarrow> h\<lparr>undoStack := [c] # undoStack h, redoStack := []\<rparr>
      | Some g \<Rightarrow> h\<lparr>openGroup := Some (g @ [c]), redoStack := []\<rparr>)"

section \<open>The piece tree\<close>

text \<open>Class \<open>PieceTree\<close>: the tree (root and nodes) of its base class, the string
  buffers and the change history. Buffer \<open>0\<close> is the add buffer. A string is the list of
  its code units.\<close>

record PieceTree = "unit PieceNodeList" +
  buffers :: "string list"
  changeHistory :: ChangeStack

definition EOL :: string where
  "EOL = [CHR 0x0A]"

definition FIRST_LINE_SPECIAL_SYMBOL :: int where
  "FIRST_LINE_SPECIAL_SYMBOL = - 10000"

text \<open>\<open>String.prototype.substring\<close>: both indices are clamped to the string and swapped
  when the first is the larger.\<close>

definition substring :: "string \<Rightarrow> int \<Rightarrow> int \<Rightarrow> string" where
  "substring s a b =
     (let n = int (length s);
          a' = max 0 (min a n);
          b' = max 0 (min b n)
      in take (nat (max a' b' - min a' b')) (drop (nat (min a' b')) s))"

definition computeLineFeedCnt :: "string \<Rightarrow> int" where
  "computeLineFeedCnt str = int (length (filter (\<lambda>c. c = CHR 0x0A) str))"

text \<open>Modelled from the spec: class \<open>PieceTreeBase\<close> is not among the sources. Its tree
  is the order-statistic red-black tree of the spec, whose operations \<open>PieceNodeList\<close>
  implements: \<open>findByOffset\<close> is \<open>find\<close>, \<open>insertFixedLeft\<close> and \<open>insertFixedRight\<close> put a
  new node holding the piece before and after the given node and return it,
  \<open>getLength\<close> is the total size read off the root. A call that throws or does not
  terminate has the value \<open>None\<close>.\<close>

definition findByOffset :: "PieceTree \<Rightarrow> int \<Rightarrow> NodePosition option" where
  "findByOffset t offset = find t offset"

definition insertFixedLeft :: "nat \<Rightarrow> NodePiece \<Rightarrow> PieceTree \<Rightarrow> (nat \<times> PieceTree) option" where
  "insertFixedLeft n p t =
     (let (new, t1) = newNode p t in do { t2 \<leftarrow> insertBefore new n t1; Some (new, t2) })"

definition insertFixedRight :: "nat \<Rightarrow> NodePiece \<Rightarrow> PieceTree \<Rightarrow> (nat \<times> PieceTree) option" where
  "insertFixedRight n p t =
     (let (new, t1) = newNode p t in do { t2 \<leftarrow> insertAfter new n t1; Some (new, t2) })"

definition getLength :: "PieceTree \<Rightarrow> int" where
  "getLength t = size_l t"

definition sentinelPiece :: NodePiece where
  "sentinelPiece = \<lparr>bufferIndex = 0, start = 0, length' = 0, lineFeedCnt = 0, meta = None\<rparr>"

definition emptyPieceTree :: PieceTree where
  "emptyPieceTree =
     \<lparr>nodes = [sentinelNode sentinelPiece], root = SENTINEL,
      buffers = [[]], changeHistory = emptyChangeStack\<rparr>"

subsection \<open>Buffers and pieces\<close>

definition getTextInBuffer :: "PieceTree \<Rightarrow> int \<Rightarrow> int \<Rightarrow> int \<Rightarrow> string option" where
  "getTextInBuffer t bi s l =
     (if bi < 0 then Some []
      else if nat bi < length (buffers t) then Some (substring (buffers t ! nat bi) s (s + l))
      else None)"

definition getTextInPiece :: "PieceTree \<Rightarrow> NodePiece \<Rightarrow> string option" where
  "getTextInPiece t p = getTextInBuffer t (bufferIndex p) (start p) (length' p)"

definition createPiece :: "string \<Rightarrow> IPieceMeta option \<Rightarrow> int \<Rightarrow> PieceTree \<Rightarrow> NodePiece \<times> PieceTree" where
  "createPiece txt m lfc t =
     (if txt \<noteq> [] then
        (\<lparr>bufferIndex = 0, start = int (length (buffers t ! 0)), length' = int (length txt),
          lineFeedCnt = lfc, meta = m\<rparr>,
         t\<lparr>buffers := (buffers t)[0 := buffers t ! 0 @ txt]\<rparr>)
      else (\<lparr>bufferIndex = - 1, start = 0, length' = 1, lineFeedCnt = 0, meta = m\<rparr>, t))"

definition splitNode :: "nat \<Rightarrow> int \<Rightarrow> PieceTree \<Rightarrow> (nat \<times> nat \<times> PieceTree) option" where
  "splitNode n rem t0 =
     (let p = piece (nd t0 n) in
      if bufferIndex p < 0 \<or> nat (bufferIndex p) \<ge> length (buffers t0) then None
      else
        (let leftStr = substring (buffers t0 ! nat (bufferIndex p)) (start p) (start p + rem);
             leftLineFeedsCnt = computeLineFeedCnt leftStr;
             leftPiece = \<lparr>bufferIndex = bufferIndex p, start = start p, length' = rem,
                          lineFeedCnt = leftLineFeedsCnt, meta = meta p\<rparr>;
             t1 = setPiece n (p\<lparr>start := start p + rem, length' := length' p - rem,
                               lineFeedCnt := lineFeedCnt p - leftLineFeedsCnt\<rparr>) t0
         in do {
           (leftNode, t2) \<leftarrow> insertFixedLeft n leftPiece t1;
           Some (leftNode, n, t2)
         }))"

definition recomputeLineFeedsCntInPiece :: "PieceTree \<Rightarrow> NodePiece \<Rightarrow> int" where
  "recomputeLineFeedsCntInPiece t p =
     (if bufferIndex p < 0 \<or> bufferIndex p > int (length (buffers t)) - 1 then 0
      else computeLineFeedCnt
             (substring (buffers t ! nat (bufferIndex p)) (start p) (start p + length' p)))"

definition determinePieceType :: "NodePiece \<Rightarrow> PieceType" where
  "determinePieceType p =
     (if lineFeedCnt p = 1 then LINE_FEED
      else if bufferIndex p < 0 then NON_TEXT
      else TEXT)"

definition push :: "Change \<Rightarrow> PieceTree \<Rightarrow> PieceTree" where
  "push c t = t\<lparr>changeHistory := stack_push c (changeHistory t)\<rparr>"

subsection \<open>\<open>insertInner\<close>\<close>

text \<open>The three statements run when a run of text can go to the end of the add buffer
  and of the node before it.\<close>

definition appendToNode :: "nat \<Rightarrow> string \<Rightarrow> PieceTree \<Rightarrow> PieceTree option" where
  "appendToNode n txt t0 =
     (let t1 = t0\<lparr>buffers := (buffers t0)[0 := buffers t0 ! 0 @ txt]\<rparr>;
          t2 = setPiece n ((piece (nd t1 n))\<lparr>length' := length' (piece (nd t1 n)) + int (length txt)\<rparr>) t1
      in updateMetaUpward n t2)"

definition insertNewPiece :: "nat \<Rightarrow> string \<Rightarrow> IPieceMeta option \<Rightarrow> int \<Rightarrow> PieceTree \<Rightarrow> (nat \<times> PieceTree) option" where
  "insertNewPiece n txt m lfc t = (let (p, t1) = createPiece txt m lfc t in insertFixedRight n p t1)"

text \<open>What is done with the pending run \<open>txt\<close> at a line feed and after the last
  character: the new current node and the new state.\<close>

definition flushText ::
  "bool \<Rightarrow> bool \<Rightarrow> bool \<Rightarrow> IPieceMeta option \<Rightarrow> string \<Rightarrow> int \<Rightarrow> nat \<Rightarrow> PieceTree \<Rightarrow>
     (nat \<times> PieceTree) option" where
  "flushText isContinousInput isEmptyMeta isNotLinkBreak m txt lfc n t =
     (if lfc = 0 then
        (if isContinousInput \<and> isEmptyMeta \<and> isNotLinkBreak \<and> txt \<noteq> [] then do {
           t1 \<leftarrow> appendToNode n txt t;
           Some (n, t1)
         }
         else if txt \<noteq> [] \<or> \<not> isEmptyMeta then insertNewPiece n txt m 0 t
         else Some (n, t))
      else if txt \<noteq> [] then insertNewPiece n txt m 0 t
      else Some (n, t))"

fun insertInner_loop ::
  "string \<Rightarrow> bool \<Rightarrow> bool \<Rightarrow> bool \<Rightarrow> IPieceMeta option \<Rightarrow> string \<Rightarrow> int \<Rightarrow> nat \<Rightarrow> PieceTree \<Rightarrow>
     (string \<times> int \<times> nat \<times> PieceTree) option" where
  "insertInner_loop [] ci em nl m txt lfc n t = Some (txt, lfc, n, t)"
| "insertInner_loop (c # cs) ci em nl m txt lfc n t =
     (if c = CHR 0x0A then
        (case flushText ci em nl m txt lfc n t of
           None \<Rightarrow> None
         | Some (n1, t1) \<Rightarrow>
             (case insertNewPiece n1 EOL m 1 t1 of
                None \<Rightarrow> None
              | Some (n2, t2) \<Rightarrow> insertInner_loop cs ci em nl m [] (lfc + 1) n2 t2))
      else insertInner_loop cs ci em nl m (txt @ [c]) lfc n t)"

definition insertDiffs :: "int \<Rightarrow> int \<Rightarrow> Diff list" where
  "insertDiffs slf lfc =
     map (\<lambda>i. if i = 0 then Diff diff_replace slf else Diff diff_insert (slf + i)) [0..lfc]"

definition insertInner :: "int \<Rightarrow> string \<Rightarrow> IPieceMeta option \<Rightarrow> PieceTree \<Rightarrow> (Diff list \<times> PieceTree) option" where
  "insertInner offset txt m t0 = do {
     let isEmptyMeta = (m = None);
     pos \<leftarrow> findByOffset t0 offset;
     (n, slf, t1) \<leftarrow>
       (if startOffset pos = offset then do {
          n \<leftarrow> predecessor t0 (node pos);
          Some (n, startLineFeedCnt pos, t0)
        }
        else if offset > startOffset pos
                \<and> offset < startOffset pos + length' (piece (nd t0 (node pos))) then do {
          (leftNode, _, t) \<leftarrow> splitNode (node pos) (reminder pos) t0;
          Some (leftNode, startLineFeedCnt pos, t)
        }
        else Some (node pos, startLineFeedCnt pos + lineFeedCnt (piece (nd t0 (node pos))), t0));
     let isNotLinkBreak = (lineFeedCnt (piece (nd t1 n)) \<le> 0);
     let isContinousInput =
       (isNotNil n \<and> bufferIndex (piece (nd t1 n)) = 0
        \<and> int (length (buffers t1 ! 0)) = start (piece (nd t1 n)) + length' (piece (nd t1 n)));
     (rest, lfc, n2, t2) \<leftarrow>
       insertInner_loop txt isContinousInput isEmptyMeta isNotLinkBreak m [] 0 n t1;
     (_, t3) \<leftarrow> flushText isContinousInput isEmptyMeta isNotLinkBreak m rest lfc n2 t2;
     let diffs = insertDiffs slf lfc;
     let change = createInsertChange offset
                    (0, int (length (buffers t3 ! 0)) - int (length txt), int (length txt)) m diffs;
     Some (diffs, push change t3)
   }"

subsection \<open>\<open>deleteInner\<close>\<close>

partial_function (option) deleteInner_loop ::
  "int \<Rightarrow> nat \<Rightarrow> int \<Rightarrow> NodePiece list \<Rightarrow> PieceTree \<Rightarrow> (int \<times> NodePiece list \<times> PieceTree) option" where
  "deleteInner_loop len n lfc pieceChange t =
     (if len > 0 then
        (if len = length' (piece (nd t n)) then do {
           t1 \<leftarrow> deleteNode n t;
           deleteInner_loop (len - length' (piece (nd t1 n))) n
             (lfc + lineFeedCnt (piece (nd t1 n))) (pieceChange @ [piece (nd t1 n)]) t1
         }
         else if len \<ge> length' (piece (nd t n)) then do {
           n' \<leftarrow> successor t n;
           t1 \<leftarrow> deleteNode n t;
           deleteInner_loop (len - length' (piece (nd t1 n))) n'
             (lfc + lineFeedCnt (piece (nd t1 n))) (pieceChange @ [piece (nd t1 n)]) t1
         }
         else
           (let p = piece (nd t n);
                originalStart = start p;
                originalLineFeedCnt = lineFeedCnt p;
                p1 = p\<lparr>start := start p + len, length' := length' p - len\<rparr>;
                p2 = p1\<lparr>lineFeedCnt := recomputeLineFeedsCntInPiece t p1\<rparr>;
                t1 = setPiece n p2 t
            in deleteInner_loop 0 n (lfc + (originalLineFeedCnt - lineFeedCnt p2))
                 (pieceChange @ [\<lparr>bufferIndex = bufferIndex p2, start = originalStart, length' = len,
                                   lineFeedCnt = originalLineFeedCnt - lineFeedCnt p2, meta = None\<rparr>])
                 t1))
      else Some (lfc, pieceChange, t))"

declare deleteInner_loop.simps [code]

definition deleteDiffs :: "int \<Rightarrow> int \<Rightarrow> Diff list" where
  "deleteDiffs slf lfc =
     map (\<lambda>i. if i = 0 then Diff diff_replace (slf + i) else Diff diff_remove (slf + i)) [0..lfc]"

definition deleteInner :: "int \<Rightarrow> int \<Rightarrow> PieceTree \<Rightarrow> (Diff list \<times> PieceTree) option" where
  "deleteInner offset len t0 = do {
     pos \<leftarrow> findByOffset t0 offset;
     (n, t1) \<leftarrow>
       (if offset \<noteq> startOffset pos then
          (let rem = offset - startOffset pos in
           if rem = length' (piece (nd t0 (node pos))) then do {
             n \<leftarrow> successor t0 (node pos);
             Some (n, t0)
           }
           else do {
             (_, rightNode, t) \<leftarrow> splitNode (node pos) rem t0;
             Some (rightNode, t)
           })
        else Some (node pos, t0));
     (lfc, pieceChange, t2) \<leftarrow> deleteInner_loop len n 0 [] t1;
     let diffs = deleteDiffs (startLineFeedCnt pos) lfc;
     let change = createDeleteChange offset len pieceChange diffs;
     Some (diffs, push change t2)
   }"

subsection \<open>\<open>formatInner\<close>\<close>

text \<open>The merge of \<open>meta\<close> into one node. The result of \<open>mergeMeta\<close> is destructured as
  \<open>[target, inversePatches]\<close>: its first and its second component.\<close>

definition formatNode :: "nat \<Rightarrow> int \<Rightarrow> IPieceMeta \<Rightarrow> PiecePatch list \<Rightarrow> PieceTree \<Rightarrow> PiecePatch list \<times> PieceTree" where
  "formatNode n offset m piecePatches t =
     (case mergeMeta (meta (piece (nd t n))) m of
        None \<Rightarrow> (piecePatches, t)
      | Some (target, second, third) \<Rightarrow>
          (piecePatches @ [PiecePatch offset (length' (piece (nd t n))) second],
           setPiece n ((piece (nd t n))\<lparr>meta := Some target\<rparr>) t))"

partial_function (option) formatInner_loop ::
  "int \<Rightarrow> int \<Rightarrow> nat \<Rightarrow> int \<Rightarrow> IPieceMeta \<Rightarrow> PieceType \<Rightarrow> PiecePatch list \<Rightarrow> PieceTree \<Rightarrow>
     (int \<times> PiecePatch list \<times> PieceTree) option" where
  "formatInner_loop len offset n lfc m ty piecePatches t =
     (if len > 0 then
        (if ty \<noteq> ALL_T \<and> determinePieceType (piece (nd t n)) \<noteq> ty then do {
           n' \<leftarrow> successor t n;
           formatInner_loop (len - length' (piece (nd t n))) (offset + length' (piece (nd t n))) n'
             lfc m ty piecePatches t
         }
         else if len \<ge> length' (piece (nd t n)) then
           (let lfc1 = lfc + lineFeedCnt (piece (nd t n));
                (patches1, t1) = formatNode n offset m piecePatches t
            in do {
              n' \<leftarrow> successor t1 n;
              formatInner_loop (len - length' (piece (nd t1 n))) (offset + length' (piece (nd t1 n))) n'
                lfc1 m ty patches1 t1
            })
         else do {
           (leftNode, _, t1) \<leftarrow> splitNode n len t;
           let lfc1 = lfc + lineFeedCnt (piece (nd t1 leftNode));
           let (patches1, t2) = formatNode leftNode offset m piecePatches t1;
           formatInner_loop (len - length' (piece (nd t2 leftNode)))
             (offset + length' (piece (nd t2 leftNode))) leftNode lfc1 m ty patches1 t2
         })
      else Some (lfc, piecePatches, t))"

declare formatInner_loop.simps [code]

definition formatDiffs :: "int \<Rightarrow> int \<Rightarrow> Diff list" where
  "formatDiffs slf lfc = map (\<lambda>i. Diff diff_replace (slf + i)) [0..lfc]"

definition formatInner :: "int \<Rightarrow> int \<Rightarrow> IPieceMeta \<Rightarrow> PieceType \<Rightarrow> PieceTree \<Rightarrow> (Diff list \<times> PieceTree) option" where
  "formatInner offset len m ty t0 = do {
     pos \<leftarrow> findByOffset t0 offset;
     (n, slf, t1) \<leftarrow>
       (if reminder pos = length' (piece (nd t0 (node pos))) then do {
          n \<leftarrow> successor t0 (node pos);
          Some (n, startLineFeedCnt pos + lineFeedCnt (piece (nd t0 n)), t0)
        }
        else if reminder pos > 0 \<and> reminder pos < length' (piece (nd t0 (node pos))) then do {
          (leftNode, rightNode, t) \<leftarrow> splitNode (node pos) (offset - startOffset pos) t0;
          Some (rightNode, startLineFeedCnt pos + lineFeedCnt (piece (nd t leftNode)), t)
        }
        else Some (node pos, startLineFeedCnt pos, t0));
     (lfc, piecePatches, t2) \<leftarrow> formatInner_loop len offset n 0 m ty [] t1;
     let diffs = formatDiffs slf lfc;
     let change = createFormatChange offset len m piecePatches diffs;
     Some (diffs, push change t2)
   }"

subsection \<open>Reading the content\<close>

text \<open>\<open>forEachPiece\<close> skips the first node (the leading line feed) and visits the others
  in order.\<close>

partial_function (option) forEachPiece_loop :: "PieceTree \<Rightarrow> nat \<Rightarrow> Piece list \<Rightarrow> Piece list option" where
  "forEachPiece_loop t n acc =
     (if isNotNil n then do {
        txt \<leftarrow> getTextInPiece t (piece (nd t n));
        n' \<leftarrow> successor t n;
        forEachPiece_loop t n' (acc @ [Piece txt (length' (piece (nd t n))) (meta (piece (nd t n)))])
      }
      else Some acc)"

declare forEachPiece_loop.simps [code]

definition getPieces :: "PieceTree \<Rightarrow> Piece list option" where
  "getPieces t = do {
     first \<leftarrow> lefest t (root t);
     n \<leftarrow> successor t first;
     if n = SENTINEL then Some [] else forEachPiece_loop t n []
   }"

definition getText :: "PieceTree \<Rightarrow> string option" where
  "getText t = map_option (\<lambda>ps. concat (map ptext ps)) (getPieces t)"

subsection \<open>The atomic operations\<close>

definition insert' :: "int \<Rightarrow> string \<Rightarrow> IPieceMeta option \<Rightarrow> PieceTree \<Rightarrow> (Diff list \<times> PieceTree) option" where
  "insert' offset txt m t = insertInner (if offset \<le> 0 then 1 else offset + 1) txt m t"

definition delete' :: "int \<Rightarrow> int \<Rightarrow> PieceTree \<Rightarrow> (Diff list \<times> PieceTree) option" where
  "delete' offset len t = deleteInner (if offset \<le> 0 then 1 else offset + 1) len t"

definition format :: "int \<Rightarrow> int \<Rightarrow> IPieceMeta \<Rightarrow> PieceTree \<Rightarrow> (Diff list \<times> PieceTree) option" where
  "format offset len m t =
     formatInner (if offset = FIRST_LINE_SPECIAL_SYMBOL then 0
                  else if offset \<le> 0 then 1 else offset + 1) len m ALL_T t"

definition insertNonText :: "int \<Rightarrow> IPieceMeta \<Rightarrow> PieceTree \<Rightarrow> (Diff list \<times> PieceTree) option" where
  "insertNonText offset m t = insert' offset [] (Some m) t"

text \<open>The constructor without initial lines: an empty tree into which the leading line
  feed is inserted.\<close>

definition newPieceTree :: "PieceTree option" where
  "newPieceTree = map_option snd (insert' 0 EOL None emptyPieceTree)"

subsection \<open>Undo and redo\<close>

text \<open>\<open>doUndo\<close> hands out the diffs of the change with the direction flipped. It flips
  them in place; flipping twice is flipping once, so the stored change is kept as it
  is.\<close>

definition flipInsert :: "Diff \<Rightarrow> Diff" where
  "flipInsert d = (if dtype d = diff_insert then Diff diff_remove (lineNumber d) else d)"

definition flipRemove :: "Diff \<Rightarrow> Diff" where
  "flipRemove d = (if dtype d = diff_remove then Diff diff_insert (lineNumber d) else d)"

fun reinsertLeft :: "nat \<Rightarrow> NodePiece list \<Rightarrow> PieceTree \<Rightarrow> PieceTree option" where
  "reinsertLeft n [] t = Some t"
| "reinsertLeft n (p # ps) t =
     (case insertFixedLeft n p t of None \<Rightarrow> None | Some (_, t1) \<Rightarrow> reinsertLeft n ps t1)"

fun reinsertRight :: "nat \<Rightarrow> NodePiece list \<Rightarrow> PieceTree \<Rightarrow> PieceTree option" where
  "reinsertRight n [] t = Some t"
| "reinsertRight n (p # ps) t =
     (case insertFixedRight n p t of
        None \<Rightarrow> None
      | Some (_, t1) \<Rightarrow>
          (case successor t1 n of None \<Rightarrow> None | Some n' \<Rightarrow> reinsertRight n' ps t1))"

fun undoPatches :: "PiecePatch list \<Rightarrow> PieceTree \<Rightarrow> PieceTree option" where
  "undoPatches [] t = Some t"
| "undoPatches (pp # pps) t =
     (case findByOffset t (patchStartOffset pp) of
        None \<Rightarrow> None
      | Some pos \<Rightarrow>
          (case (if reminder pos = length' (piece (nd t (node pos))) then successor t (node pos)
                 else Some (node pos)) of
             None \<Rightarrow> None
           | Some n \<Rightarrow>
               (case applyPatches (case meta (piece (nd t n)) of None \<Rightarrow> [] | Some m \<Rightarrow> m)
                       (inversePatches pp) of
                  None \<Rightarrow> None
                | Some m' \<Rightarrow> undoPatches pps (setPiece n ((piece (nd t n))\<lparr>meta := Some m'\<rparr>) t))))"

fun doUndo :: "Change \<Rightarrow> PieceTree \<Rightarrow> (Diff list \<times> PieceTree) option" where
  "doUndo (InsertChange offset len txt m diffs) t = do {
     (_, t1) \<leftarrow> deleteInner offset len t;
     Some (map flipInsert diffs, t1)
   }"
| "doUndo (DeleteChange offset len pieces diffs) t = do {
     pos \<leftarrow> findByOffset t offset;
     t1 \<leftarrow>
       (if startOffset pos = offset then do {
          n \<leftarrow> predecessor t (node pos);
          if n = SENTINEL then reinsertLeft (node pos) pieces t else reinsertRight n pieces t
        }
        else if reminder pos = length' (piece (nd t (node pos))) then
          reinsertRight (node pos) pieces t
        else Some t);
     Some (map flipRemove diffs, t1)
   }"
| "doUndo (FormatChange offset len m piecePatches diffs) t = do {
     t1 \<leftarrow> undoPatches piecePatches t;
     Some (diffs, t1)
   }"

fun doRedo :: "Change \<Rightarrow> PieceTree \<Rightarrow> (Diff list \<times> PieceTree) option" where
  "doRedo (InsertChange offset len txt m diffs) t = do {
     s \<leftarrow> getTextInBuffer t (fst txt) (fst (snd txt)) (snd (snd txt));
     insertInner offset s m t
   }"
| "doRedo (DeleteChange offset len pieces diffs) t = deleteInner offset len t"
| "doRedo (FormatChange offset len m piecePatches diffs) t = formatInner offset len m ALL_T t"

text \<open>Modelled from the spec: \<open>applayUndo\<close> and \<open>applayRedo\<close> of \<open>ChangeStack\<close>. Undo pops
  one group, applies the inverse of each of its changes in reverse order and returns the
  concatenated diffs; redo applies the most recently undone group again in the original
  order.\<close>

fun applyChanges ::
  "(Change \<Rightarrow> PieceTree \<Rightarrow> (Diff list \<times> PieceTree) option) \<Rightarrow> Change list \<Rightarrow> PieceTree \<Rightarrow>
     (Diff list \<times> PieceTree) option" where
  "applyChanges f [] t = Some ([], t)"
| "applyChanges f (c # cs) t =
     (case f c t of
        None \<Rightarrow> None
      | Some (d, t1) \<Rightarrow>
          (case applyChanges f cs t1 of None \<Rightarrow> None | Some (ds, t2) \<Rightarrow> Some (d @ ds, t2)))"

definition setApplying :: "bool \<Rightarrow> PieceTree \<Rightarrow> PieceTree" where
  "setApplying b t = t\<lparr>changeHistory := (changeHistory t)\<lparr>applying := b\<rparr>\<rparr>"

definition undo :: "PieceTree \<Rightarrow> (Diff list \<times> PieceTree) option" where
  "undo t =
     (case undoStack (changeHistory t) of
        [] \<Rightarrow> Some ([], t)
      | g # rest \<Rightarrow> do {
          (diffs, t1) \<leftarrow> applyChanges doUndo (rev g) (setApplying True t);
          Some (diffs, t1\<lparr>changeHistory := (changeHistory t1)
                  \<lparr>undoStack := rest, redoStack := g # redoStack (changeHistory t1),
                   applying := False\<rparr>\<rparr>)
        })"

definition redo :: "PieceTree \<Rightarrow> (Diff list \<times> PieceTree) option" where
  "redo t =
     (case redoStack (changeHistory t) of
        [] \<Rightarrow> Some ([], t)
      | g # rest \<Rightarrow> do {
          (diffs, t1) \<leftarrow> applyChanges doRedo g (setApplying True t);
          Some (diffs, t1\<lparr>changeHistory := (changeHistory t1)
                  \<lparr>undoStack := g # undoStack (changeHistory t1), redoStack := rest,
                   applying := False\<rparr>\<rparr>)
        })"

subsection \<open>Change groups\<close>

definition startChange :: "PieceTree \<Rightarrow> PieceTree" where
  "startChange t = t\<lparr>changeHistory := stack_startChange (changeHistory t)\<rparr>"

definition endChange :: "PieceTree \<Rightarrow> PieceTree" where
  "endChange t = t\<lparr>changeHistory := stack_endChange (changeHistory t)\<rparr>"

text \<open>A statement either completes normally or throws, in both cases leaving the state
  as far as it has changed it; a statement that does not terminate has the value \<open>None\<close>.
  \<open>andThen\<close> is the sequence of two statements: the second runs when the first has
  completed normally. \<open>tryCatch\<close> is \<open>try { body } catch (e) { handler }\<close>: the handler runs
  when the body has thrown.\<close>

datatype outcome = Returned | Threw

definition andThen ::
  "('s \<Rightarrow> (outcome \<times> 's) option) \<Rightarrow> ('s \<Rightarrow> (outcome \<times> 's) option) \<Rightarrow> 's \<Rightarrow> (outcome \<times> 's) option" where
  "andThen first next s =
     (case first s of
        None \<Rightarrow> None
      | Some (Returned, s1) \<Rightarrow> next s1
      | Some (Threw, s1) \<Rightarrow> Some (Threw, s1))"

definition tryCatch ::
  "('s \<Rightarrow> (outcome \<times> 's) option) \<Rightarrow> ('s \<Rightarrow> (outcome \<times> 's) option) \<Rightarrow> 's \<Rightarrow> (outcome \<times> 's) option" where
  "tryCatch body handler s =
     (case body s of
        None \<Rightarrow> None
      | Some (Returned, s1) \<Rightarrow> Some (Returned, s1)
      | Some (Threw, s1) \<Rightarrow> handler s1)"

text \<open>\<open>change\<close>: \<open>startChange\<close>, the callback inside \<open>try\<close> with an empty \<open>catch\<close> block,
  \<open>endChange\<close>.\<close>

definition change ::
  "(PieceTree \<Rightarrow> (outcome \<times> PieceTree) option) \<Rightarrow> PieceTree \<Rightarrow> (outcome \<times> PieceTree) option" where
  "change callback =
     andThen (\<lambda>t. Some (Returned, startChange t))
       (andThen (tryCatch callback (\<lambda>t. Some (Returned, t)))
          (\<lambda>t. Some (Returned, endChange t)))"

section \<open>Specification vocabulary\<close>

text \<open>The tree hanging from an address, as a value: \<open>shape t n T\<close> says that following
  the child links from \<open>n\<close> gives the binary tree \<open>T\<close> of addresses, the sentinel standing
  for every leaf.\<close>

fun shape :: "('a, 'z) PieceNodeList_scheme \<Rightarrow> nat \<Rightarrow> nat tree \<Rightarrow> bool" where
  "shape t n Leaf = (n = SENTINEL)"
| "shape t n (Node l a r) =
     (n = a \<and> a \<noteq> SENTINEL \<and> shape t (left (nd t a)) l \<and> shape t (right (nd t a)) r)"

definition sumLength :: "('a, 'z) PieceNodeList_scheme \<Rightarrow> nat list \<Rightarrow> int" where
  "sumLength t ns = sum_list (map (\<lambda>n. length' (piece (nd t n))) ns)"

definition sumLineFeedCnt :: "('a, 'z) PieceNodeList_scheme \<Rightarrow> nat list \<Rightarrow> int" where
  "sumLineFeedCnt t ns = sum_list (map (\<lambda>n. lineFeedCnt (piece (nd t n))) ns)"

text \<open>Aggregate integrity: the six aggregates of every node of the tree equal the sums
  and the counts over its two subtrees.\<close>

fun aggregatesOk :: "('a, 'z) PieceNodeList_scheme \<Rightarrow> nat tree \<Rightarrow> bool" where
  "aggregatesOk t Leaf = True"
| "aggregatesOk t (Node l a r) =
     (leftSize (nd t a) = sumLength t (inorder l) \<and>
      rightSize (nd t a) = sumLength t (inorder r) \<and>
      leftLineFeedCnt (nd t a) = sumLineFeedCnt t (inorder l) \<and>
      rightLineFeedCnt (nd t a) = sumLineFeedCnt t (inorder r) \<and>
      leftNodeCnt (nd t a) = int (length (inorder l)) \<and>
      rightNodeCnt (nd t a) = int (length (inorder r)) \<and>
      aggregatesOk t l \<and> aggregatesOk t r)"

text \<open>A sequence of calls of the public operations, the diffs dropped.\<close>

fun calls :: "(PieceTree \<Rightarrow> (Diff list \<times> PieceTree) option) list \<Rightarrow> PieceTree \<Rightarrow> PieceTree option" where
  "calls [] t = Some t"
| "calls (f # fs) t = (case f t of None \<Rightarrow> None | Some (_, t1) \<Rightarrow> calls fs t1)"

text \<open>Small lists for \<open>PieceNodeList\<close>: the empty list, and a list built by \<open>append\<close>
  and \<open>prepend\<close>.\<close>

definition listPiece :: "int \<Rightarrow> int \<Rightarrow> int \<Rightarrow> int \<Rightarrow> ListPiece" where
  "listPiece b s l lfc =
     \<lparr>bufferIndex = b, start = s, length' = l, lineFeedCnt = lfc, meta = None, pieceType = TEXT\<rparr>"

definition emptyList :: "(unit ListPiece_ext, unit) PieceNodeList_scheme" where
  "emptyList = \<lparr>nodes = [sentinelNode (listPiece 0 0 0 0)], root = SENTINEL\<rparr>"

definition appendPiece ::
  "ListPiece \<Rightarrow> (unit ListPiece_ext, unit) PieceNodeList_scheme \<Rightarrow>
     (unit ListPiece_ext, unit) PieceNodeList_scheme option" where
  "appendPiece p t = (let (n, t1) = newNode p t in append n t1)"

definition prependPiece ::
  "ListPiece \<Rightarrow> (unit ListPiece_ext, unit) PieceNodeList_scheme \<Rightarrow>
     (unit ListPiece_ext, unit) PieceNodeList_scheme option" where
  "prependPiece p t = (let (n, t1) = newNode p t in prepend n t1)"

text \<open>The position \<open>find\<close> is to return when the offset falls into the node of rank
  \<open>i\<close> (counted from 0) of the tree \<open>T\<close>: the offsets and line feeds before that node are
  the sums over the nodes preceding it in order.\<close>

definition foundAt ::
  "('a, 'z) PieceNodeList_scheme \<Rightarrow> nat tree \<Rightarrow> int \<Rightarrow> int \<Rightarrow> int \<Rightarrow> nat \<Rightarrow> NodePosition" where
  "foundAt t T offset so slf i =
     \<lparr>node = inorder T ! i, reminder = offset - sumLength t (take i (inorder T)),
      startOffset = so + sumLength t (take i (inorder T)),
      startLineFeedCnt = slf + sumLineFeedCnt t (take i (inorder T))\<rparr>"

text \<open>\<open>samePieces t t'\<close>: the two states hold the same piece in every node and agree
  outside the tree (buffers, change history); links, colours and aggregates may
  differ.\<close>

definition samePieces :: "('a, 'z) PieceNodeList_scheme \<Rightarrow> ('a, 'z) PieceNodeList_scheme \<Rightarrow> bool" where
  "samePieces t t' =
     (map piece (nodes t') = map piece (nodes t) \<and> PieceNodeList.more t' = PieceNodeList.more t)"

text \<open>\<open>climbs t k n\<close>: following the parent links from \<open>n\<close> reaches the sentinel after
  \<open>k\<close> nodes.\<close>

fun climbs :: "('a, 'z) PieceNodeList_scheme \<Rightarrow> nat \<Rightarrow> nat \<Rightarrow> bool" where
  "climbs t 0 n = (n = SENTINEL)"
| "climbs t (Suc k) n = (n \<noteq> SENTINEL \<and> climbs t k (parent (nd t n)))"





text \<open>States of a piece tree written out: a node with its piece in buffer 0 (start,
  length, line feeds), its colour, its links (parent, left, right) and its aggregates;
  a tree with one buffer; the change pushed by the constructor and by the insert of a
  text without line feed.\<close>

definition mkNode ::
  "int \<times> int \<times> int \<Rightarrow> NodeColor \<Rightarrow> nat \<times> nat \<times> nat \<Rightarrow> int \<times> int \<Rightarrow> int \<times> int \<Rightarrow> int \<times> int \<Rightarrow> unit PieceNode" where
  "mkNode p c links sizes lfs cnts =
     \<lparr>piece = \<lparr>bufferIndex = 0, start = fst p, length' = fst (snd p), lineFeedCnt = snd (snd p), meta = None\<rparr>,
      color = c, parent = fst links, left = fst (snd links), right = snd (snd links),
      leftSize = fst sizes, rightSize = snd sizes,
      leftLineFeedCnt = fst lfs, rightLineFeedCnt = snd lfs,
      leftNodeCnt = fst cnts, rightNodeCnt = snd cnts\<rparr>"

definition mkTree :: "unit PieceNode list \<Rightarrow> nat \<Rightarrow> string \<Rightarrow> Change list list \<Rightarrow> Change list list \<Rightarrow> PieceTree" where
  "mkTree ns r buf us rs =
     \<lparr>nodes = ns, root = r, buffers = [buf],
      changeHistory = \<lparr>undoStack = us, redoStack = rs, openGroup = None, applying = False\<rparr>\<rparr>"

definition firstChange :: Change where
  "firstChange = InsertChange 1 1 (0, 0, 1) None [Diff diff_replace 0, Diff diff_insert 1]"

definition textChange :: "int \<Rightarrow> int \<Rightarrow> int \<Rightarrow> Change" where
  "textChange offset from len = InsertChange offset len (0, from, len) None [Diff diff_replace 1]"

text \<open>The states a new tree goes through when a text \<open>s\<close> is inserted, a text \<open>x\<close> is
  inserted at its end (\<open>st11\<close>), inside it at \<open>k\<close> (\<open>st21\<close>) or before it (\<open>st31\<close>), and
  the inserts are undone and redone; \<open>a\<close> and \<open>b\<close> are the lengths of \<open>s\<close> and \<open>x\<close>.\<close>

definition st0 :: "PieceTree" where
  "st0 = mkTree [mkNode (0, 0, 0) BLACK (0, 0, 0) (0, 0) (0, 0) (0, 0),
             mkNode (0, 1, 1) BLACK (0, 0, 0) (0, 0) (0, 0) (0, 0)] 1 (EOL)
       [[firstChange]] []"

definition st1 :: "string \<Rightarrow> PieceTree" where
  "st1 s = (let a = int (length s) in
     mkTree [mkNode (0, 0, 0) BLACK (0, 0, 0) (0, 0) (0, 0) (0, 0),
             mkNode (0, 1, 1) BLACK (0, 0, 2) (0, a) (0, 0) (0, 1),
             mkNode (1, a, 0) RED (1, 0, 0) (0, 0) (0, 0) (0, 0)] 1 (EOL @ s)
       [[textChange 1 1 a], [firstChange]] [])"

definition st11 :: "string \<Rightarrow> string \<Rightarrow> PieceTree" where
  "st11 s x = (let a = int (length s); b = int (length x) in
     mkTree [mkNode (0, 0, 0) BLACK (0, 0, 0) (0, 0) (0, 0) (0, 0),
             mkNode (0, 1, 1) BLACK (0, 0, 2) (0, a + b) (0, 0) (0, 1),
             mkNode (1, a + b, 0) RED (1, 0, 0) (0, 0) (0, 0) (0, 0)] 1 (EOL @ s @ x)
       [[textChange (1 + a) (1 + a) b], [textChange 1 1 a], [firstChange]] [])"

definition st12 :: "string \<Rightarrow> string \<Rightarrow> PieceTree" where
  "st12 s x = (let a = int (length s); b = int (length x) in
     mkTree [mkNode (0, 0, 0) BLACK (3, 0, 0) (0, 0) (0, 0) (0, 0),
             mkNode (0, 1, 1) RED (3, 0, 0) (0, 0) (0, 0) (0, 0),
             mkNode (1 + a, b, 0) RED (0, 0, 0) (0, 0) (0, 0) (0, 0),
             mkNode (1, a, 0) BLACK (0, 1, 0) (1, 0) (1, 0) (1, 0)] 3 (EOL @ s @ x)
       [[textChange 1 1 a], [firstChange]] [[textChange (1 + a) (1 + a) b]])"

definition st13 :: "string \<Rightarrow> string \<Rightarrow> PieceTree" where
  "st13 s x = (let a = int (length s); b = int (length x) in
     mkTree [mkNode (0, 0, 0) BLACK (3, 0, 0) (0, 0) (0, 0) (0, 0),
             mkNode (0, 1, 1) BLACK (0, 0, 0) (0, 0) (0, 0) (0, 0),
             mkNode (1 + a, b, 0) RED (0, 0, 0) (0, 0) (0, 0) (0, 0),
             mkNode (1, a, 0) BLACK (0, 0, 0) (1, 0) (1, 0) (1, 0)] 1 (EOL @ s @ x)
       [[firstChange]] [[textChange 1 1 a], [textChange (1 + a) (1 + a) b]])"

definition st14 :: "string \<Rightarrow> string \<Rightarrow> PieceTree" where
  "st14 s x = (let a = int (length s); b = int (length x) in
     mkTree [mkNode (0, 0, 0) BLACK (3, 0, 0) (0, 0) (0, 0) (0, 0),
             mkNode (0, 1, 1) BLACK (0, 0, 4) (0, a) (0, 0) (0, 1),
             mkNode (1 + a, b, 0) RED (0, 0, 0) (0, 0) (0, 0) (0, 0),
             mkNode (1, a, 0) BLACK (0, 0, 0) (1, 0) (1, 0) (1, 0),
             mkNode (1 + a + b, a, 0) RED (1, 0, 0) (0, 0) (0, 0) (0, 0)] 1 (EOL @ s @ x @ s)
       [[textChange 1 1 a], [firstChange]] [[textChange (1 + a) (1 + a) b]])"

definition st15 :: "string \<Rightarrow> string \<Rightarrow> PieceTree" where
  "st15 s x = (let a = int (length s); b = int (length x) in
     mkTree [mkNode (0, 0, 0) BLACK (3, 0, 0) (0, 0) (0, 0) (0, 0),
             mkNode (0, 1, 1) BLACK (0, 0, 4) (0, a + b) (0, 0) (0, 1),
             mkNode (1 + a, b, 0) RED (0, 0, 0) (0, 0) (0, 0) (0, 0),
             mkNode (1, a, 0) BLACK (0, 0, 0) (1, 0) (1, 0) (1, 0),
             mkNode (1 + a + b, a + b, 0) RED (1, 0, 0) (0, 0) (0, 0) (0, 0)] 1 (EOL @ s @ x @ s @ x)
       [[textChange (1 + a) (1 + a) b], [textChange 1 1 a], [firstChange]] [])"

definition st16 :: "string \<Rightarrow> string \<Rightarrow> PieceTree" where
  "st16 s x = (let a = int (length s); b = int (length x) in
     mkTree [mkNode (0, 0, 0) BLACK (3, 0, 0) (0, 0) (0, 0) (0, 0),
             mkNode (0, 1, 1) RED (3, 0, 0) (0, 0) (0, 0) (0, 0),
             mkNode (1 + a, b, 0) RED (0, 0, 0) (0, 0) (0, 0) (0, 0),
             mkNode (1, a, 0) BLACK (0, 1, 4) (1, b) (1, 0) (1, 1),
             mkNode (1 + a + b, b, 0) RED (3, 0, 0) (0, 0) (0, 0) (0, 0)] 3 (EOL @ s @ x @ x)
       [[textChange (1 + a) (1 + a) b], [textChange 1 1 a], [firstChange]] [])"

definition st21 :: "string \<Rightarrow> string \<Rightarrow> nat \<Rightarrow> PieceTree" where
  "st21 s x k = (let a = int (length s); b = int (length x) in
     mkTree [mkNode (0, 0, 0) BLACK (0, 0, 0) (0, 0) (0, 0) (0, 0),
             mkNode (0, 1, 1) BLACK (3, 0, 0) (0, 0) (0, 0) (0, 0),
             mkNode (1 + int k, a - int k, 0) BLACK (3, 4, 0) (b, 0) (0, 0) (1, 0),
             mkNode (1, int k, 0) BLACK (0, 1, 2) (1, b + (a - int k)) (1, 0) (1, 2),
             mkNode (1 + a, b, 0) RED (2, 0, 0) (0, 0) (0, 0) (0, 0)] 3 (EOL @ s @ x)
       [[textChange (1 + int k) (1 + a) b], [textChange 1 1 a], [firstChange]] [])"

definition st22 :: "string \<Rightarrow> string \<Rightarrow> nat \<Rightarrow> PieceTree" where
  "st22 s x k = (let a = int (length s); b = int (length x) in
     mkTree [mkNode (0, 0, 0) BLACK (2, 0, 0) (0, 0) (0, 0) (0, 0),
             mkNode (0, 1, 1) BLACK (3, 0, 0) (0, 0) (0, 0) (0, 0),
             mkNode (1 + int k, a - int k, 0) BLACK (3, 0, 0) (0, 0) (0, 0) (0, 0),
             mkNode (1, int k, 0) BLACK (0, 1, 2) (1, a - int k) (1, 0) (1, 1),
             mkNode (1 + a, b, 0) RED (0, 0, 0) (0, 0) (0, 0) (0, 0)] 3 (EOL @ s @ x)
       [[textChange 1 1 a], [firstChange]] [[textChange (1 + int k) (1 + a) b]])"

definition st23 :: "string \<Rightarrow> string \<Rightarrow> nat \<Rightarrow> PieceTree" where
  "st23 s x k = (let a = int (length s); b = int (length x) in
     mkTree [mkNode (0, 0, 0) BLACK (2, 0, 0) (0, 0) (0, 0) (0, 0),
             mkNode (0, 1, 1) BLACK (3, 0, 0) (0, 0) (0, 0) (0, 0),
             mkNode (1 + int k, a - int k, 0) BLACK (3, 5, 0) (b, 0) (0, 0) (1, 0),
             mkNode (1, int k, 0) BLACK (0, 1, 2) (1, b + (a - int k)) (1, 0) (1, 2),
             mkNode (1 + a, b, 0) RED (0, 0, 0) (0, 0) (0, 0) (0, 0),
             mkNode (1 + a + b, b, 0) RED (2, 0, 0) (0, 0) (0, 0) (0, 0)] 3 (EOL @ s @ x @ x)
       [[textChange (1 + int k) (1 + a) b], [textChange 1 1 a], [firstChange]] [])"

definition st31 :: "string \<Rightarrow> string \<Rightarrow> PieceTree" where
  "st31 s x = (let a = int (length s); b = int (length x) in
     mkTree [mkNode (0, 0, 0) BLACK (0, 0, 0) (0, 0) (0, 0) (0, 0),
             mkNode (0, 1, 1) RED (3, 0, 0) (0, 0) (0, 0) (0, 0),
             mkNode (1, a, 0) RED (3, 0, 0) (0, 0) (0, 0) (0, 0),
             mkNode (1 + a, b, 0) BLACK (0, 1, 2) (1, a) (1, 0) (1, 1)] 3 (EOL @ s @ x)
       [[textChange 1 (1 + a) b], [textChange 1 1 a], [firstChange]] [])"

definition st32 :: "string \<Rightarrow> string \<Rightarrow> PieceTree" where
  "st32 s x = (let a = int (length s); b = int (length x) in
     mkTree [mkNode (0, 0, 0) BLACK (2, 0, 0) (0, 0) (0, 0) (0, 0),
             mkNode (0, 1, 1) RED (2, 0, 0) (0, 0) (0, 0) (0, 0),
             mkNode (1, a, 0) BLACK (0, 1, 0) (1, 0) (1, 0) (1, 0),
             mkNode (1 + a, b, 0) BLACK (0, 0, 0) (1, a) (1, 0) (1, 1)] 2 (EOL @ s @ x)
       [[textChange 1 1 a], [firstChange]] [[textChange 1 (1 + a) b]])"

definition st33 :: "string \<Rightarrow> string \<Rightarrow> PieceTree" where
  "st33 s x = (let a = int (length s); b = int (length x) in
     mkTree [mkNode (0, 0, 0) BLACK (2, 0, 0) (0, 0) (0, 0) (0, 0),
             mkNode (0, 1, 1) RED (4, 0, 0) (0, 0) (0, 0) (0, 0),
             mkNode (1, a, 0) RED (4, 0, 0) (0, 0) (0, 0) (0, 0),
             mkNode (1 + a, b, 0) BLACK (0, 0, 0) (1, a) (1, 0) (1, 1),
             mkNode (1 + a + b, b, 0) BLACK (0, 1, 2) (1, a) (1, 0) (1, 1)] 4 (EOL @ s @ x @ x)
       [[textChange 1 (1 + a) b], [textChange 1 1 a], [firstChange]] [])"

section \<open>Properties\<close>

subsection \<open>Aggregate integrity\<close>

text \<open>C3. After every public operation the six aggregates of every node equal the sums
  and counts over its subtrees. This fails after a delete that removes a prefix of a
  piece: \<open>deleteInner\<close> shortens the piece and does not call \<open>updateMetaUpward\<close>. On a new
  tree, after \<open>insert(0, "hello")\<close> and \<open>delete(0, 2)\<close> the tree is the root (the leading line
  feed) with one right child of length 3, and the root still holds \<open>rightSize = 5\<close>.\<close>

theorem delete_prefix_breaks_aggregates:
  "map_option
     (\<lambda>t. (shape t (root t) \<langle>\<langle>\<rangle>, 1, \<langle>\<langle>\<rangle>, 2, \<langle>\<rangle>\<rangle>\<rangle>,
           rightSize (nd t (root t)), sumLength t [2],
           aggregatesOk t \<langle>\<langle>\<rangle>, 1, \<langle>\<langle>\<rangle>, 2, \<langle>\<rangle>\<rangle>\<rangle>))
     (newPieceTree \<bind> calls [insert' 0 ''hello'' None, delete' 0 2])
   = Some (True, 5, 3, False)"
  by code_simp

subsection \<open>\<open>get\<close>\<close>

text \<open>C5. \<open>get(index)\<close> returns the node of in-order rank \<open>index\<close> for
  \<open>1 \<le> index \<le> nodeCnt\<close> and the sentinel otherwise. It does not: in the list of two
  nodes built by appending a piece and prepending another, the root is node 1 and its
  left child, node 2, is the first in order; \<open>get(1)\<close> returns the sentinel (the test
  \<open>leftNodeCnt > index\<close> misses \<open>leftNodeCnt = index\<close>), and \<open>get(0)\<close> and \<open>get(3)\<close> return the
  root (the variable that is returned starts as the root).\<close>

theorem get_misses_rank_and_range:
  "map_option
     (\<lambda>t. (shape t (root t) \<langle>\<langle>\<langle>\<rangle>, 2, \<langle>\<rangle>\<rangle>, 1, \<langle>\<rangle>\<rangle>, aggregatesOk t \<langle>\<langle>\<langle>\<rangle>, 2, \<langle>\<rangle>\<rangle>, 1, \<langle>\<rangle>\<rangle>,
           nodeCnt t, get t 1, get t 0, get t 3))
     (appendPiece (listPiece 0 0 3 0) emptyList \<bind> prependPiece (listPiece 0 3 2 0))
   = Some (True, True, 2, Some SENTINEL, Some 1, Some 1)"
  by code_simp

subsection \<open>Undo of a format\<close>

text \<open>The model of \<open>mergeMeta\<close> on the input of the repository's test
  \<open>meta.test.ts\<close> gives the triple the test expects.\<close>

lemma mergeMeta_test_1:
  "mergeMeta (Some [(''age'', JNum 10), (''obj'', JObj [(''color'', JNum 10)])])
     [(''age'', JNum 11), (''obj'', JObj [(''color'', JNum 11), (''ss'', JNum 10)])]
   = Some ([(''age'', JNum 11), (''obj'', JObj [(''color'', JNum 11), (''ss'', JNum 10)])],
           [Patch op_replace [''obj'', ''color''] (Some (JNum 11)),
            Patch op_add [''obj'', ''ss''] (Some (JNum 10)),
            Patch op_replace [''age''] (Some (JNum 11))],
           [Patch op_replace [''obj'', ''color''] (Some (JNum 10)),
            Patch op_remove [''obj'', ''ss''] None,
            Patch op_replace [''age''] (Some (JNum 10))])"
  by code_simp

text \<open>C2. An undo after a format restores the meta of every formatted piece, by the
  inverse patches (the third component of what \<open>mergeMeta\<close> returns) stored in the
  \<open>FormatChange\<close>. It does not: \<open>formatInner\<close> stores the second component, the forward
  patches, and undo applies them again. After \<open>insert(0, "ab", {age: 10})\<close> and
  \<open>format(0, 2, {age: 11})\<close> the change holds \<open>replace age 11\<close>, and after \<open>undo()\<close> the
  piece still has \<open>{age: 11}\<close>; the third component applied to the merged meta gives
  \<open>{age: 10}\<close> back.\<close>

theorem format_undo_keeps_formatted_meta:
  "map_option (\<lambda>t. hd (undoStack (changeHistory t)))
     (newPieceTree \<bind> calls [insert' 0 ''ab'' (Some [(''age'', JNum 10)]),
                               format 0 2 [(''age'', JNum 11)]])
   = Some [FormatChange 1 2 [(''age'', JNum 11)]
             [PiecePatch 1 2 [Patch op_replace [''age''] (Some (JNum 11))]]
             [Diff diff_replace 1]]
   \<and> (newPieceTree \<bind> calls [insert' 0 ''ab'' (Some [(''age'', JNum 10)])] \<bind> getPieces)
     = Some [Piece ''ab'' 2 (Some [(''age'', JNum 10)])]
   \<and> (newPieceTree \<bind> calls [insert' 0 ''ab'' (Some [(''age'', JNum 10)]),
                                format 0 2 [(''age'', JNum 11)], undo] \<bind> getPieces)
     = Some [Piece ''ab'' 2 (Some [(''age'', JNum 11)])]
   \<and> map_option (\<lambda>r. applyPatches (fst r) (snd (snd r)))
       (mergeMeta (Some [(''age'', JNum 10)]) [(''age'', JNum 11)])
     = Some (Some [(''age'', JNum 10)])"
  by code_simp

subsection \<open>Splitting a node\<close>

text \<open>The operations that restructure the tree leave every piece as it is.\<close>

lemma samePieces_refl [simp]: "samePieces t t"
  by (simp add: samePieces_def)

lemma samePieces_trans: "samePieces t t' \<Longrightarrow> samePieces t' t'' \<Longrightarrow> samePieces t t''"
  by (simp add: samePieces_def)

lemma map_piece_update:
  "piece y = piece (xs ! n) \<Longrightarrow> map piece (xs[n := y]) = map piece xs"
  by (cases "n < length xs") (simp_all add: map_update list_update_same_conv list_update_beyond)

lemma samePieces_setNode:
  "(\<And>x. piece (f x) = piece x) \<Longrightarrow> samePieces t t' \<Longrightarrow> samePieces t (setNode n f t')"
  by (simp add: samePieces_def setNode_def map_piece_update)

lemma samePieces_prims [intro!]:
  "samePieces t t' \<Longrightarrow> samePieces t (toRed n t')"
  "samePieces t t' \<Longrightarrow> samePieces t (toBlack n t')"
  "samePieces t t' \<Longrightarrow> samePieces t (setColor n c t')"
  "samePieces t t' \<Longrightarrow> samePieces t (setParent n p t')"
  "samePieces t t' \<Longrightarrow> samePieces t (setLeft n p t')"
  "samePieces t t' \<Longrightarrow> samePieces t (setRight n p t')"
  "samePieces t t' \<Longrightarrow> samePieces t (updateMeta n t')"
  "samePieces t t' \<Longrightarrow> samePieces t (t'\<lparr>root := r\<rparr>)"
  by (simp_all add: toRed_def toBlack_def setColor_def setParent_def setLeft_def setRight_def
        updateMeta_def samePieces_setNode)
     (simp add: samePieces_def)

lemma samePieces_leftRotate [intro!]: "samePieces t t' \<Longrightarrow> samePieces t (leftRotate x t')"
  unfolding leftRotate_def Let_def by auto

lemma samePieces_rightRotate [intro!]: "samePieces t t' \<Longrightarrow> samePieces t (rightRotate x t')"
  unfolding rightRotate_def Let_def by auto

lemma updateMetaUpward_samePieces:
  assumes "updateMetaUpward n t = Some t'"
  shows "samePieces t t'"
proof (rule updateMetaUpward.raw_induct[where P = "\<lambda>n t t'. samePieces t t'", OF _ assms])
  fix f :: "nat \<Rightarrow> ('a, 'b) PieceNodeList_scheme \<Rightarrow> ('a, 'b) PieceNodeList_scheme option"
  fix n t t'
  assume IH: "\<And>n t y. f n t = Some y \<Longrightarrow> samePieces t y"
    and body: "(if n = SENTINEL then Some t else f (parent (nd t n)) (updateMeta n t)) = Some t'"
  have h: "f n1 t1 = Some t' \<Longrightarrow> samePieces t t1 \<Longrightarrow> samePieces t t'" for n1 t1
    by (rule samePieces_trans[OF _ IH])
  from body show "samePieces t t'"
    by (auto split: if_splits elim!: h)
qed

lemma insertFixup_loop_samePieces:
  assumes "insertFixup_loop n t = Some t'"
  shows "samePieces t t'"
proof (rule insertFixup_loop.raw_induct[where P = "\<lambda>n t t'. samePieces t t'", OF _ assms])
  fix f :: "nat \<Rightarrow> ('a, 'b) PieceNodeList_scheme \<Rightarrow> ('a, 'b) PieceNodeList_scheme option"
  fix n t t'
  assume IH: "\<And>n t y. f n t = Some y \<Longrightarrow> samePieces t y"
    and body: "(if isRed t (parent (nd t n)) then
        (let p = parent (nd t n); g = parent (nd t p) in
         if isLeft t p then
           (let uncle = right (nd t g) in
            if isRed t uncle then f g (toRed g (toBlack uncle (toBlack p t)))
            else if isRight t n then f p (leftRotate p t)
            else f n (rightRotate g (toRed g (toBlack p t))))
         else
           (let uncle = left (nd t g) in
            if isRed t uncle then f g (toRed g (toBlack uncle (toBlack p t)))
            else if isLeft t n then f p (rightRotate p t)
            else f n (leftRotate g (toRed g (toBlack p t)))))
      else Some t) = Some t'"
  have h: "f n1 t1 = Some t' \<Longrightarrow> samePieces t t1 \<Longrightarrow> samePieces t t'" for n1 t1
    by (rule samePieces_trans[OF _ IH])
  from body show "samePieces t t'"
    by (auto simp: Let_def split: if_splits elim!: h)
qed

lemma insertBefore_samePieces:
  "insertBefore new ref t = Some t' \<Longrightarrow> samePieces t t'"
  unfolding insertBefore_def insertFixup_def before_def
  by (auto simp: bind_eq_Some_conv split: if_splits
      dest!: insertFixup_loop_samePieces updateMetaUpward_samePieces
      elim!: samePieces_trans[rotated])

lemma insertAfter_samePieces:
  "insertAfter new ref t = Some t' \<Longrightarrow> samePieces t t'"
  unfolding insertAfter_def insertFixup_def after_def
  by (auto simp: bind_eq_Some_conv split: if_splits
      dest!: insertFixup_loop_samePieces updateMetaUpward_samePieces
      elim!: samePieces_trans[rotated])


lemma samePieces_length: "samePieces t t' \<Longrightarrow> length (nodes t') = length (nodes t)"
  unfolding samePieces_def by (metis length_map)

lemma samePieces_piece:
  "samePieces t t' \<Longrightarrow> m < length (nodes t) \<Longrightarrow> piece (nd t' m) = piece (nd t m)"
  using samePieces_length[of t t'] unfolding samePieces_def
  by (metis nth_map)

lemma samePieces_buffers:
  fixes t t' :: PieceTree
  shows "samePieces t t' \<Longrightarrow> buffers t' = buffers t \<and> changeHistory t' = changeHistory t"
  by (cases t, cases t') (simp add: samePieces_def)

text \<open>\<open>PieceTree.splitNode\<close> does what the split law says: for a piece with a valid buffer
  index, split inside its range, the left piece counts the line feeds of its slice, the
  two texts concatenate to the original text and the two counts add up to the original
  count.\<close>

lemma splitNode_pieces:
  fixes t :: PieceTree
  assumes "splitNode n r t = Some (l, n', t')" and "n < length (nodes t)"
  shows "n' = n" and "l = length (nodes t)"
     and "piece (nd t' l) =
         \<lparr>bufferIndex = bufferIndex (piece (nd t n)), start = start (piece (nd t n)), length' = r,
          lineFeedCnt = computeLineFeedCnt
             (substring (buffers t ! nat (bufferIndex (piece (nd t n)))) (start (piece (nd t n)))
                (start (piece (nd t n)) + r)),
          meta = meta (piece (nd t n))\<rparr>"
     and "piece (nd t' n') =
         (piece (nd t n))\<lparr>start := start (piece (nd t n)) + r,
            length' := length' (piece (nd t n)) - r,
            lineFeedCnt := lineFeedCnt (piece (nd t n)) - computeLineFeedCnt
             (substring (buffers t ! nat (bufferIndex (piece (nd t n)))) (start (piece (nd t n)))
                (start (piece (nd t n)) + r))\<rparr>"
     and "buffers t' = buffers t"
     and "0 \<le> bufferIndex (piece (nd t n))"
     and "nat (bufferIndex (piece (nd t n))) < length (buffers t)"
proof -
  let ?p = "piece (nd t n)"
  let ?c = "computeLineFeedCnt (substring (buffers t ! nat (bufferIndex ?p)) (start ?p) (start ?p + r))"
  let ?lp = "\<lparr>bufferIndex = bufferIndex ?p, start = start ?p, length' = r, lineFeedCnt = ?c, meta = meta ?p\<rparr>"
  let ?t1 = "setPiece n (?p\<lparr>start := start ?p + r, length' := length' ?p - r,
                               lineFeedCnt := lineFeedCnt ?p - ?c\<rparr>) t"
  let ?t2 = "?t1\<lparr>nodes := nodes ?t1 @ [createPieceNode ?lp]\<rparr>"
  from assms(1) have valid: "0 \<le> bufferIndex ?p" "nat (bufferIndex ?p) < length (buffers t)"
    by (auto simp: splitNode_def Let_def split: if_splits)
  with assms(1) have ib: "insertBefore (length (nodes t)) n ?t2 = Some t'"
    and res: "n' = n" "l = length (nodes t)"
    by (auto simp: splitNode_def Let_def insertFixedLeft_def newNode_def setPiece_def setNode_def
        bind_eq_Some_conv split: if_splits)
  from insertBefore_samePieces[OF ib] have sp: "samePieces ?t2 t'" .
  have len2: "length (nodes ?t2) = Suc (length (nodes t))"
    by (simp add: setPiece_def setNode_def)
  from samePieces_piece[OF sp, of "length (nodes t)"] len2
  have pl: "piece (nd t' (length (nodes t))) = ?lp"
    by (simp add: setPiece_def setNode_def nth_append createPieceNode_def)
  from samePieces_piece[OF sp, of n] len2 assms(2)
  have pn: "piece (nd t' n) = ?p\<lparr>start := start ?p + r, length' := length' ?p - r,
                               lineFeedCnt := lineFeedCnt ?p - ?c\<rparr>"
    by (simp add: setPiece_def setNode_def nth_append)
  from samePieces_buffers[OF sp] have "buffers t' = buffers t"
    by (simp add: setPiece_def setNode_def)
  with res pl pn valid show "n' = n" and "l = length (nodes t)"
     and "piece (nd t' l) = ?lp"
     and "piece (nd t' n') = ?p\<lparr>start := start ?p + r, length' := length' ?p - r,
                               lineFeedCnt := lineFeedCnt ?p - ?c\<rparr>"
     and "buffers t' = buffers t"
     and "0 \<le> bufferIndex (piece (nd t n))"
     and "nat (bufferIndex (piece (nd t n))) < length (buffers t)"
    by simp_all
qed


lemma substring_inside:
  "0 \<le> a \<Longrightarrow> a \<le> b \<Longrightarrow> b \<le> int (length u) \<Longrightarrow>
   substring u a b = take (nat (b - a)) (drop (nat a) u)"
  by (simp add: substring_def Let_def min_def max_def)

lemma substring_split:
  assumes "0 \<le> a" "0 \<le> r" "r \<le> len" "a + len \<le> int (length u)"
  shows "substring u a (a + r) @ substring u (a + r) (a + r + (len - r)) = substring u a (a + len)"
proof -
  have "take (nat r) (drop (nat a) u) @ take (nat (len - r)) (drop (nat (a + r)) u)
        = take (nat r + nat (len - r)) (drop (nat a) u)"
    using assms by (simp add: take_add nat_add_distrib add.commute)
  also have "nat r + nat (len - r) = nat len"
    using assms by simp
  finally show ?thesis
    using assms by (simp add: substring_inside)
qed

lemma computeLineFeedCnt_append:
  "computeLineFeedCnt (u @ v) = computeLineFeedCnt u + computeLineFeedCnt v"
  by (simp add: computeLineFeedCnt_def)

lemma splitNode_split_law:
  fixes t :: PieceTree
  assumes "splitNode n r t = Some (l, n', t')" and "n < length (nodes t)"
    and "0 < r" "r < length' (piece (nd t n))" "0 \<le> start (piece (nd t n))"
    and "start (piece (nd t n)) + length' (piece (nd t n))
           \<le> int (length (buffers t ! nat (bufferIndex (piece (nd t n)))))"
  shows "\<exists>lt rt ot. getTextInPiece t' (piece (nd t' l)) = Some lt
           \<and> getTextInPiece t' (piece (nd t' n')) = Some rt
           \<and> getTextInPiece t (piece (nd t n)) = Some ot
           \<and> lt @ rt = ot
           \<and> lineFeedCnt (piece (nd t' l)) = computeLineFeedCnt lt
           \<and> lineFeedCnt (piece (nd t' l)) + lineFeedCnt (piece (nd t' n'))
               = lineFeedCnt (piece (nd t n))"
proof -
  let ?p = "piece (nd t n)"
  let ?u = "buffers t ! nat (bufferIndex ?p)"
  note sp = splitNode_pieces[OF assms(1,2)]
  from sp(6,7) have b: "\<not> bufferIndex ?p < 0" "nat (bufferIndex ?p) < length (buffers t)"
    by simp_all
  from substring_split[OF assms(5) _ _ assms(6), of r] assms(3,4)
  have "substring ?u (start ?p) (start ?p + r)
          @ substring ?u (start ?p + r) (start ?p + r + (length' ?p - r))
        = substring ?u (start ?p) (start ?p + length' ?p)"
    by simp
  with b show ?thesis
    by (simp add: sp(3,4,5) getTextInPiece_def getTextInBuffer_def)
qed

text \<open>C6. Splitting a node at \<open>r\<close> gives a left piece whose \<open>lineFeedCnt\<close> is the number
  of line feeds in the left slice, and takes that number off the original piece.
  \<open>PieceNodeList.splitNode\<close> does not count: the left piece gets \<open>lineFeedCnt = 0\<close> and the
  original piece keeps its own. For a piece of three line feeds split at 2, the left
  piece of length 2 has count 0 and the remaining piece of length 1 has count 3.\<close>

theorem splitNode_list_does_not_count_line_feeds:
  "map_option (\<lambda>(l, r, t). (piece (nd t l), piece (nd t r)))
     (appendPiece (listPiece 1 0 3 3) emptyList \<bind> splitNode_l 1 2)
   = Some (listPiece 1 0 2 0, listPiece 1 2 1 3)"
  by code_simp

subsection \<open>Non-text pieces\<close>

text \<open>C9. \<open>insert(offset, "", meta)\<close> inserts one non-text piece of stored length 1, so
  that \<open>getLength\<close> grows by 1 and \<open>getText\<close> stays. After \<open>insert(0, "hello")\<close> and
  \<open>delete(0, 2)\<close> the root's \<open>rightSize\<close> is stale (5 for a piece of length 3), and
  inserting a non-text piece recomputes it: the text stays and the piece is there, but
  \<open>getLength\<close> goes from 6 to 5.\<close>

theorem insertNonText_length_after_stale_aggregate:
  "map_option getLength (newPieceTree \<bind> calls [insert' 0 ''hello'' None, delete' 0 2]) = Some 6
   \<and> map_option getLength
        (newPieceTree \<bind> calls [insert' 0 ''hello'' None, delete' 0 2,
                                  insertNonText 0 [(''a'', JNum 1)]]) = Some 5
   \<and> (newPieceTree \<bind> calls [insert' 0 ''hello'' None, delete' 0 2] \<bind> getPieces)
     = Some [Piece ''llo'' 3 None]
   \<and> (newPieceTree \<bind> calls [insert' 0 ''hello'' None, delete' 0 2,
                                insertNonText 0 [(''a'', JNum 1)]] \<bind> getPieces)
     = Some [Piece [] 1 (Some [(''a'', JNum 1)]), Piece ''llo'' 3 None]"
  by code_simp

subsection \<open>Deleting nothing\<close>

text \<open>C10. \<open>delete(offset, 0)\<close> leaves \<open>getText\<close> as it is, returns one \<open>replace\<close> diff and
  pushes a \<open>DeleteChange\<close> without pieces. For an offset past the end the text changes:
  \<open>deleteInner\<close> takes \<open>offset - startOffset\<close> as the place to split the last node, which
  is then beyond its length. After \<open>insert(0, "ab")\<close> and \<open>insert(0, "cd")\<close> the text is
  \<open>"cdab"\<close>; \<open>delete(7, 0)\<close> turns the last piece into one of length 5 followed by one of
  length -3, and the text into \<open>"cdabcdcd"\<close>.\<close>

theorem delete_nothing_past_end_changes_text:
  "(newPieceTree \<bind> calls [insert' 0 ''ab'' None, insert' 0 ''cd'' None] \<bind> getText)
     = Some ''cdab''
   \<and> (newPieceTree \<bind> calls [insert' 0 ''ab'' None, insert' 0 ''cd'' None, delete' 7 0]
         \<bind> getText) = Some ''cdabcdcd''
   \<and> (newPieceTree \<bind> calls [insert' 0 ''ab'' None, insert' 0 ''cd'' None, delete' 7 0]
         \<bind> getPieces)
     = Some [Piece ''cd'' 2 None, Piece ''abcd'' 5 None, Piece ''cd'' (- 3) None]
   \<and> (newPieceTree \<bind> calls [insert' 0 ''ab'' None, insert' 0 ''cd'' None]
         \<bind> (\<lambda>t. map_option (\<lambda>r. (fst r, hd (undoStack (changeHistory (snd r))))) (delete' 7 0 t)))
     = Some ([Diff diff_replace 1], [DeleteChange 8 0 [] [Diff diff_replace 1]])"
  by code_simp

subsection \<open>\<open>find\<close>\<close>

lemma sumLength_simps [simp]:
  "sumLength t [] = 0"
  "sumLength t (n # ns) = length' (piece (nd t n)) + sumLength t ns"
  "sumLength t (xs @ ys) = sumLength t xs + sumLength t ys"
  by (simp_all add: sumLength_def)

lemma sumLineFeedCnt_simps [simp]:
  "sumLineFeedCnt t [] = 0"
  "sumLineFeedCnt t (n # ns) = lineFeedCnt (piece (nd t n)) + sumLineFeedCnt t ns"
  "sumLineFeedCnt t (xs @ ys) = sumLineFeedCnt t xs + sumLineFeedCnt t ys"
  by (simp_all add: sumLineFeedCnt_def)

lemma find_loop_correct:
  "shape t n T \<Longrightarrow> aggregatesOk t T \<Longrightarrow> 0 \<le> offset \<Longrightarrow> offset < sumLength t (inorder T) \<Longrightarrow>
   \<exists>i < length (inorder T).
     find_loop t n offset so slf = Some (foundAt t T offset so slf i)
     \<and> sumLength t (take i (inorder T)) \<le> offset
     \<and> offset < sumLength t (take i (inorder T)) + length' (piece (nd t (inorder T ! i)))"
proof (induction T arbitrary: n offset so slf)
  case Leaf
  then show ?case by simp
next
  case (Node l a r)
  from Node.prems have na: "n = a" "a \<noteq> SENTINEL"
    and sl: "shape t (left (nd t a)) l" and sr: "shape t (right (nd t a)) r"
    and ls: "leftSize (nd t a) = sumLength t (inorder l)"
    and rs: "rightSize (nd t a) = sumLength t (inorder r)"
    and llf: "leftLineFeedCnt (nd t a) = sumLineFeedCnt t (inorder l)"
    and al: "aggregatesOk t l" and ar: "aggregatesOk t r"
    by simp_all
  let ?L = "sumLength t (inorder l)"
  let ?len = "length' (piece (nd t a))"
  consider (left) "offset < ?L" | (here) "?L \<le> offset" "offset < ?L + ?len" | (right) "?L \<le> offset" "?L + ?len \<le> offset"
    by linarith
  then show ?case
  proof cases
    case left
    from Node.IH(1)[OF sl al Node.prems(3) left, of so slf]
    obtain i where i: "i < length (inorder l)"
      and f: "find_loop t (left (nd t a)) offset so slf = Some (foundAt t l offset so slf i)"
      and b: "sumLength t (take i (inorder l)) \<le> offset"
         "offset < sumLength t (take i (inorder l)) + length' (piece (nd t (inorder l ! i)))"
      by blast
    have "find_loop t n offset so slf = find_loop t (left (nd t a)) offset so slf"
      using na left ls by (subst find_loop.simps) simp
    with f i b show ?thesis
      by (intro exI[of _ i]) (simp add: foundAt_def nth_append del: length_inorder)
  next
    case here
    have "find_loop t n offset so slf = Some (foundAt t (Node l a r) offset so slf (length (inorder l)))"
      using na here ls llf by (subst find_loop.simps) (simp add: foundAt_def size_n_def del: length_inorder)
    with here show ?thesis
      by (intro exI[of _ "length (inorder l)"]) (simp del: length_inorder)
  next
    case right
    with Node.prems(4) have rpos: "0 < sumLength t (inorder r)" by simp
    then have "r \<noteq> Leaf" by auto
    with sr have rn: "right (nd t a) \<noteq> SENTINEL" by (cases r) auto
    let ?o = "offset - (?L + ?len)"
    have o0: "0 \<le> ?o" using right by simp
    have o1: "?o < sumLength t (inorder r)" using Node.prems(4) by simp
    from Node.IH(2)[OF sr ar o0 o1, of "so + (?L + ?len)" "slf + (sumLineFeedCnt t (inorder l) + lineFeedCnt (piece (nd t a)))"]
    obtain i where i: "i < length (inorder r)"
      and f: "find_loop t (right (nd t a)) ?o (so + (?L + ?len)) (slf + (sumLineFeedCnt t (inorder l) + lineFeedCnt (piece (nd t a))))
               = Some (foundAt t r ?o (so + (?L + ?len)) (slf + (sumLineFeedCnt t (inorder l) + lineFeedCnt (piece (nd t a)))) i)"
      and b: "sumLength t (take i (inorder r)) \<le> ?o"
         "?o < sumLength t (take i (inorder r)) + length' (piece (nd t (inorder r ! i)))"
      by blast
    have "find_loop t n offset so slf =
          find_loop t (right (nd t a)) ?o (so + (?L + ?len)) (slf + (sumLineFeedCnt t (inorder l) + lineFeedCnt (piece (nd t a))))"
      using na right ls llf rn by (subst find_loop.simps) (simp add: size_n_def lineFeedCnt_n_def)
    with f i b show ?thesis
      by (intro exI[of _ "length (inorder l) + 1 + i"]) (simp add: foundAt_def nth_append del: length_inorder)
  qed
qed


lemma shape_not_Leaf: "shape t n T \<Longrightarrow> T \<noteq> Leaf \<Longrightarrow> n \<noteq> SENTINEL"
  by (cases T) auto

lemma inorder_not_Leaf: "T \<noteq> Leaf \<Longrightarrow> inorder T \<noteq> []"
  by (cases T) auto

lemma lefest_shape: "shape t n T \<Longrightarrow> T \<noteq> Leaf \<Longrightarrow> lefest t n = Some (hd (inorder T))"
proof (induction T arbitrary: n)
  case Leaf
  then show ?case by simp
next
  case (Node l a r)
  from Node.prems have n: "n = a" and sl: "shape t (left (nd t a)) l" by simp_all
  show ?case
  proof (cases "l = Leaf")
    case True
    with n sl show ?thesis by (subst lefest.simps) simp
  next
    case False
    from Node.IH(1)[OF sl False] shape_not_Leaf[OF sl False] inorder_not_Leaf[OF False] n
    show ?thesis by (subst lefest.simps) simp
  qed
qed

lemma rightest_shape: "shape t n T \<Longrightarrow> T \<noteq> Leaf \<Longrightarrow> rightest t n = Some (last (inorder T))"
proof (induction T arbitrary: n)
  case Leaf
  then show ?case by simp
next
  case (Node l a r)
  from Node.prems have n: "n = a" and sr: "shape t (right (nd t a)) r" by simp_all
  show ?case
  proof (cases "r = Leaf")
    case True
    with n sr show ?thesis by (subst rightest.simps) simp
  next
    case False
    from Node.IH(2)[OF sr False] shape_not_Leaf[OF sr False] inorder_not_Leaf[OF False] n
    show ?thesis by (subst rightest.simps) simp
  qed
qed

lemma size_l_shape:
  "shape t (root t) T \<Longrightarrow> T \<noteq> Leaf \<Longrightarrow> aggregatesOk t T \<Longrightarrow>
   size_l t = sumLength t (inorder T) \<and> lineFeedCnt_l t = sumLineFeedCnt t (inorder T)"
  by (cases T) (auto simp: size_l_def lineFeedCnt_l_def size_n_def lineFeedCnt_n_def)

lemma sum_butlast:
  "ns \<noteq> [] \<Longrightarrow> sumLength t ns - length' (piece (nd t (last ns))) = sumLength t (butlast ns)
     \<and> sumLineFeedCnt t ns - lineFeedCnt (piece (nd t (last ns))) = sumLineFeedCnt t (butlast ns)"
  by (induction ns) auto

text \<open>C4. In a non-empty tree whose aggregates are intact, \<open>find(offset)\<close> for
  \<open>0 < offset < size\<close> returns a node of the tree together with the summed length of the
  pieces before it in order as \<open>startOffset\<close>, \<open>reminder = offset - startOffset\<close> with
  \<open>0 \<le> reminder \<le> node.piece.length\<close>, and the summed line-feed count before it as
  \<open>startLineFeedCnt\<close>. For \<open>offset \<le> 0\<close> it returns the leftmost node with reminder 0, and
  for \<open>offset \<ge> size\<close> (and positive) the rightmost node with its piece length as
  reminder.\<close>

theorem find_position:
  assumes "shape t (root t) T" and "T \<noteq> Leaf" and "aggregatesOk t T"
  shows "(0 < offset \<and> offset < size_l t \<longrightarrow>
           (\<exists>pos i. find t offset = Some pos \<and> i < length (inorder T) \<and> node pos = inorder T ! i
              \<and> startOffset pos = sumLength t (take i (inorder T))
              \<and> reminder pos = offset - startOffset pos
              \<and> 0 \<le> reminder pos \<and> reminder pos \<le> length' (piece (nd t (node pos)))
              \<and> startLineFeedCnt pos = sumLineFeedCnt t (take i (inorder T))))
       \<and> (offset \<le> 0 \<longrightarrow>
           find t offset = Some \<lparr>node = hd (inorder T), reminder = 0, startOffset = 0,
                                startLineFeedCnt = 0\<rparr>)
       \<and> (0 < offset \<and> size_l t \<le> offset \<longrightarrow>
           find t offset = Some \<lparr>node = last (inorder T),
                                reminder = length' (piece (nd t (last (inorder T)))),
                                startOffset = sumLength t (butlast (inorder T)),
                                startLineFeedCnt = sumLineFeedCnt t (butlast (inorder T))\<rparr>)"
proof (intro conjI impI)
  assume o: "0 < offset \<and> offset < size_l t"
  from size_l_shape[OF assms] o have "0 \<le> offset" "offset < sumLength t (inorder T)"
    by simp_all
  from find_loop_correct[OF assms(1) assms(3) this, of 0 0]
  obtain i where i: "i < length (inorder T)"
    and f: "find_loop t (root t) offset 0 0 = Some (foundAt t T offset 0 0 i)"
    and b: "sumLength t (take i (inorder T)) \<le> offset"
       "offset < sumLength t (take i (inorder T)) + length' (piece (nd t (inorder T ! i)))"
    by blast
  from o have "find t offset = find_loop t (root t) offset 0 0"
    by (simp add: find_def)
  with f i b show "\<exists>pos i. find t offset = Some pos \<and> i < length (inorder T) \<and> node pos = inorder T ! i
              \<and> startOffset pos = sumLength t (take i (inorder T))
              \<and> reminder pos = offset - startOffset pos
              \<and> 0 \<le> reminder pos \<and> reminder pos \<le> length' (piece (nd t (node pos)))
              \<and> startLineFeedCnt pos = sumLineFeedCnt t (take i (inorder T))"
    by (intro exI[of _ "foundAt t T offset 0 0 i"] exI[of _ i]) (simp add: foundAt_def)
next
  assume "offset \<le> 0"
  then show "find t offset = Some \<lparr>node = hd (inorder T), reminder = 0, startOffset = 0,
                                startLineFeedCnt = 0\<rparr>"
    by (simp add: find_def lefest_shape[OF assms(1,2)])
next
  assume o: "0 < offset \<and> size_l t \<le> offset"
  from assms(2) have ne: "inorder T \<noteq> []" by (cases T) auto
  from o show "find t offset = Some \<lparr>node = last (inorder T),
                                reminder = length' (piece (nd t (last (inorder T)))),
                                startOffset = sumLength t (butlast (inorder T)),
                                startLineFeedCnt = sumLineFeedCnt t (butlast (inorder T))\<rparr>"
    using size_l_shape[OF assms] sum_butlast[OF ne, of t]
    by (simp add: find_def rightest_shape[OF assms(1,2)])
qed


theorem find_position_witness:
  "\<exists>t. (appendPiece (listPiece 0 0 3 0) emptyList \<bind> prependPiece (listPiece 0 3 2 0)) = Some t
     \<and> size_l t = 5
     \<and> (\<exists>pos i. find t 4 = Some pos \<and> i < 2 \<and> node pos = [2, 1] ! i
            \<and> startOffset pos = sumLength t (take i [2, 1])
            \<and> reminder pos = 4 - startOffset pos
            \<and> 0 \<le> reminder pos \<and> reminder pos \<le> length' (piece (nd t (node pos)))
            \<and> startLineFeedCnt pos = sumLineFeedCnt t (take i [2, 1]))
     \<and> find t 0 = Some \<lparr>node = 2, reminder = 0, startOffset = 0, startLineFeedCnt = 0\<rparr>
     \<and> find t 7 = Some \<lparr>node = 1, reminder = length' (piece (nd t 1)),
                          startOffset = sumLength t [2], startLineFeedCnt = sumLineFeedCnt t [2]\<rparr>"
proof -
  let ?s = "appendPiece (listPiece 0 0 3 0) emptyList \<bind> prependPiece (listPiece 0 3 2 0)"
  let ?T = "\<langle>\<langle>\<langle>\<rangle>, 2, \<langle>\<rangle>\<rangle>, 1, \<langle>\<rangle>\<rangle> :: nat tree"
  have e: "map_option (\<lambda>t. (shape t (root t) ?T, aggregatesOk t ?T, size_l t)) ?s = Some (True, True, 5)"
    by code_simp
  then obtain t where t: "?s = Some t"
    by (cases ?s) auto
  from e t have sh: "shape t (root t) ?T" and ag: "aggregatesOk t ?T" and sz: "size_l t = 5"
    by simp_all
  have ne: "?T \<noteq> Leaf" by simp
  from find_position [OF sh ne ag, of 4] find_position [OF sh ne ag, of 0]
    find_position [OF sh ne ag, of 7] sz t
  show ?thesis
    by (simp add: numeral_2_eq_2)
qed

subsection \<open>Continuous input\<close>

lemma nd_setNode:
  "nd (setNode n f t) m = (if m = n \<and> n < length (nodes t) then f (nd t n) else nd t m)"
  by (cases "n < length (nodes t)") (simp_all add: setNode_def nth_list_update list_update_beyond)

lemma piece_updateMeta [simp]: "piece (nd (updateMeta n t) m) = piece (nd t m)"
  by (simp add: updateMeta_def nd_setNode)

lemma parent_updateMeta [simp]: "parent (nd (updateMeta n t) m) = parent (nd t m)"
  by (simp add: updateMeta_def nd_setNode)

lemma updateMeta_nodes_only: "updateMeta n t = t\<lparr>nodes := nodes (updateMeta n t)\<rparr>"
  by (simp add: updateMeta_def setNode_def)

lemma length_updateMeta [simp]: "length (nodes (updateMeta n t)) = length (nodes t)"
  by (simp add: updateMeta_def setNode_def)

lemma climbs_updateMeta [simp]: "climbs (updateMeta n t) k m = climbs t k m"
  by (induction k arbitrary: m) simp_all

lemma updateMetaUpward_frame:
  "climbs t k n \<Longrightarrow>
   \<exists>ns. updateMetaUpward n t = Some (t\<lparr>nodes := ns\<rparr>) \<and> length ns = length (nodes t)
      \<and> (\<forall>m. piece (ns ! m) = piece (nd t m))"
proof (induction k arbitrary: n t)
  case 0
  then have "updateMetaUpward n t = Some (t\<lparr>nodes := nodes t\<rparr>)"
    by (subst updateMetaUpward.simps) simp
  then show ?case by blast
next
  case (Suc k)
  then have n: "n \<noteq> SENTINEL" and c: "climbs (updateMeta n t) k (parent (nd (updateMeta n t) n))"
    by simp_all
  from Suc.IH[OF c] obtain ns where
    u: "updateMetaUpward (parent (nd (updateMeta n t) n)) (updateMeta n t) = Some ((updateMeta n t)\<lparr>nodes := ns\<rparr>)"
    and l: "length ns = length (nodes (updateMeta n t))"
    and p: "\<forall>m. piece (ns ! m) = piece (nd (updateMeta n t) m)"
    by blast
  have "(updateMeta n t)\<lparr>nodes := ns\<rparr> = t\<lparr>nodes := ns\<rparr>"
    by (subst updateMeta_nodes_only) simp
  with u n have "updateMetaUpward n t = Some (t\<lparr>nodes := ns\<rparr>)"
    by (subst updateMetaUpward.simps) simp
  with l p show ?case by auto
qed

lemma insertInner_loop_no_line_feed:
  "CHR 0x0A \<notin> set txt \<Longrightarrow>
   insertInner_loop txt ci em nl m acc lfc n t = Some (acc @ txt, lfc, n, t)"
  by (induction "txt" arbitrary: acc) auto


lemma climbs_cong:
  "(\<And>m. parent (nd t' m) = parent (nd t m)) \<Longrightarrow> climbs t' k n = climbs t k n"
  by (induction k arbitrary: n) simp_all

lemma appendToNode_frame:
  fixes t :: PieceTree
  assumes "n < length (nodes t)" and "climbs t k n"
  shows "\<exists>ns. appendToNode n s t
            = Some (t\<lparr>nodes := ns, buffers := (buffers t)[0 := buffers t ! 0 @ s]\<rparr>)
          \<and> length ns = length (nodes t)
          \<and> piece (ns ! n) = (piece (nd t n))\<lparr>length' := length' (piece (nd t n)) + int (length s)\<rparr>
          \<and> (\<forall>m. m \<noteq> n \<longrightarrow> piece (ns ! m) = piece (nd t m))"
proof -
  let ?t1 = "t\<lparr>buffers := (buffers t)[0 := buffers t ! 0 @ s]\<rparr>"
  let ?t2 = "setPiece n ((piece (nd ?t1 n))\<lparr>length' := length' (piece (nd ?t1 n)) + int (length s)\<rparr>) ?t1"
  have c: "climbs ?t2 k n"
    using assms(2) by (subst climbs_cong[of _ t]) (simp_all add: setPiece_def nd_setNode)
  from updateMetaUpward_frame[OF c] obtain ns where
    u: "updateMetaUpward n ?t2 = Some (?t2\<lparr>nodes := ns\<rparr>)"
    and l: "length ns = length (nodes ?t2)"
    and p: "\<forall>m. piece (ns ! m) = piece (nd ?t2 m)"
    by blast
  have e: "?t2\<lparr>nodes := ns\<rparr> = t\<lparr>nodes := ns, buffers := (buffers t)[0 := buffers t ! 0 @ s]\<rparr>"
    by (simp add: setPiece_def setNode_def)
  from u e have "appendToNode n s t
      = Some (t\<lparr>nodes := ns, buffers := (buffers t)[0 := buffers t ! 0 @ s]\<rparr>)"
    by (simp add: appendToNode_def Let_def)
  moreover from l have "length ns = length (nodes t)"
    by (simp add: setPiece_def setNode_def)
  moreover from p assms(1) have
    "piece (ns ! n) = (piece (nd t n))\<lparr>length' := length' (piece (nd t n)) + int (length s)\<rparr>"
    by (simp add: setPiece_def nd_setNode)
  moreover from p have "\<forall>m. m \<noteq> n \<longrightarrow> piece (ns ! m) = piece (nd t m)"
    by (simp add: setPiece_def nd_setNode)
  ultimately show ?thesis by blast
qed

text \<open>C7. An insert of text without line feed and without meta, at the end of a node
  that is not the sentinel, lies in buffer 0, holds no line feed and ends where the add
  buffer ends, appends the text to buffer 0 and adds its length to the node's piece; no
  node is created and no other piece changes. The insertion point is at the end of node
  \<open>n\<close> when \<open>findByOffset\<close> returns the start of the node after \<open>n\<close>, or returns \<open>n\<close> as
  the last node with the offset at or past its end. In particular \<open>insert(0, "a")\<close>,
  \<open>insert(1, "b")\<close>, \<open>insert(2, "c")\<close> on a new tree leave one piece \<open>"abc"\<close>.\<close>

theorem insert_coalesces:
  fixes t :: PieceTree
  assumes lf: "CHR 0x0A \<notin> set s"
    and pos: "findByOffset t (if offset \<le> 0 then 1 else offset + 1) = Some pos"
    and at_end:
      "(startOffset pos = (if offset \<le> 0 then 1 else offset + 1)
          \<and> predecessor t (node pos) = Some n)
       \<or> (startOffset pos \<noteq> (if offset \<le> 0 then 1 else offset + 1)
          \<and> \<not> (startOffset pos < (if offset \<le> 0 then 1 else offset + 1)
                 \<and> (if offset \<le> 0 then 1 else offset + 1)
                     < startOffset pos + length' (piece (nd t (node pos))))
          \<and> node pos = n)"
    and n: "n \<noteq> SENTINEL" "n < length (nodes t)"
    and b0: "bufferIndex (piece (nd t n)) = 0"
    and nolf: "lineFeedCnt (piece (nd t n)) = 0"
    and cont: "start (piece (nd t n)) + length' (piece (nd t n)) = int (length (buffers t ! 0))"
    and buf: "buffers t \<noteq> []"
    and up: "climbs t k n"
  shows "(\<exists>diffs t'. insert' offset s None t = Some (diffs, t')
           \<and> buffers t' = (buffers t)[0 := buffers t ! 0 @ s]
           \<and> piece (nd t' n) = (piece (nd t n))\<lparr>length' := length' (piece (nd t n)) + int (length s)\<rparr>
           \<and> length (nodes t') = length (nodes t)
           \<and> (\<forall>m. m \<noteq> n \<longrightarrow> piece (nd t' m) = piece (nd t m)))
       \<and> (newPieceTree \<bind> calls [insert' 0 ''a'' None, insert' 1 ''b'' None, insert' 2 ''c'' None]
           \<bind> getPieces) = Some [Piece ''abc'' 3 None]
       \<and> (newPieceTree \<bind> calls [insert' 0 ''a'' None, insert' 1 ''b'' None, insert' 2 ''c'' None]
           \<bind> getText) = Some ''abc''"
proof (intro conjI)
  show "(newPieceTree \<bind> calls [insert' 0 ''a'' None, insert' 1 ''b'' None, insert' 2 ''c'' None]
           \<bind> getPieces) = Some [Piece ''abc'' 3 None]"
    by code_simp
  show "(newPieceTree \<bind> calls [insert' 0 ''a'' None, insert' 1 ''b'' None, insert' 2 ''c'' None]
           \<bind> getText) = Some ''abc''"
    by code_simp
  let ?io = "if offset \<le> 0 then 1 else offset + 1"
  let ?b = "(buffers t)[0 := buffers t ! 0 @ s]"
  obtain slf where res:
    "(if startOffset pos = ?io then do {
          n \<leftarrow> predecessor t (node pos);
          Some (n, startLineFeedCnt pos, t)
        }
        else if ?io > startOffset pos
                \<and> ?io < startOffset pos + length' (piece (nd t (node pos))) then do {
          (leftNode, _, t) \<leftarrow> splitNode (node pos) (reminder pos) t;
          Some (leftNode, startLineFeedCnt pos, t)
        }
        else Some (node pos, startLineFeedCnt pos + lineFeedCnt (piece (nd t (node pos))), t))
     = Some (n, slf, t)"
    using at_end by (cases "startOffset pos = ?io") auto
  have loop: "insertInner_loop s True True True None [] 0 n t = Some (s, 0, n, t)"
    using insertInner_loop_no_line_feed[OF lf, of True True True None "[]" 0 n t] by simp
  from appendToNode_frame[OF n(2) up, of s] obtain ns where
    a: "appendToNode n s t = Some (t\<lparr>nodes := ns, buffers := ?b\<rparr>)"
    and l: "length ns = length (nodes t)"
    and pn: "piece (ns ! n) = (piece (nd t n))\<lparr>length' := length' (piece (nd t n)) + int (length s)\<rparr>"
    and pm: "\<forall>m. m \<noteq> n \<longrightarrow> piece (ns ! m) = piece (nd t m)"
    by blast
  show "\<exists>diffs t'. insert' offset s None t = Some (diffs, t')
           \<and> buffers t' = (buffers t)[0 := buffers t ! 0 @ s]
           \<and> piece (nd t' n) = (piece (nd t n))\<lparr>length' := length' (piece (nd t n)) + int (length s)\<rparr>
           \<and> length (nodes t') = length (nodes t)
           \<and> (\<forall>m. m \<noteq> n \<longrightarrow> piece (nd t' m) = piece (nd t m))"
  proof (cases "s = []")
    case True
    have "insert' offset s None t
        = Some (insertDiffs slf 0,
                push (createInsertChange ?io (0, int (length (buffers t ! 0)) - int (length s), int (length s))
                        None (insertDiffs slf 0)) t)"
      unfolding insert'_def insertInner_def
      using pos res loop n b0 nolf cont True
      by (simp add: flushText_def isNotNil_def Let_def)
    with True show ?thesis
      by (simp add: push_def)
  next
    case False
    have "insert' offset s None t
        = Some (insertDiffs slf 0,
                push (createInsertChange ?io (0, int (length (?b ! 0)) - int (length s), int (length s))
                        None (insertDiffs slf 0)) (t\<lparr>nodes := ns, buffers := ?b\<rparr>))"
      unfolding insert'_def insertInner_def
      using pos res loop n b0 nolf cont False a
      by (simp add: flushText_def isNotNil_def Let_def)
    with l pn pm show ?thesis
      by (simp add: push_def)
  qed
qed


theorem insert_coalesces_witness:
  "\<exists>t. (newPieceTree \<bind> calls [insert' 0 ''a'' None]) = Some t
     \<and> (\<exists>diffs t'. insert' 1 ''b'' None t = Some (diffs, t')
            \<and> buffers t' = [EOL @ ''ab'']
            \<and> piece (nd t' 2) = \<lparr>bufferIndex = 0, start = 1, length' = 2, lineFeedCnt = 0, meta = None\<rparr>
            \<and> length (nodes t') = 3)"
proof -
  let ?s = "newPieceTree \<bind> calls [insert' 0 ''a'' None]"
  have e: "map_option
             (\<lambda>t. (findByOffset t 2, piece (nd t 2), buffers t, climbs t 2 2, length (nodes t))) ?s
           = Some (Some \<lparr>node = 2, reminder = 1, startOffset = 1, startLineFeedCnt = 1\<rparr>,
                   \<lparr>bufferIndex = 0, start = 1, length' = 1, lineFeedCnt = 0, meta = None\<rparr>,
                   [EOL @ ''a''], True, 3)"
    by code_simp
  then obtain t where t: "?s = Some t"
    by (cases ?s) auto
  from e t have f: "findByOffset t 2 = Some \<lparr>node = 2, reminder = 1, startOffset = 1, startLineFeedCnt = 1\<rparr>"
    and p: "piece (nd t 2) = \<lparr>bufferIndex = 0, start = 1, length' = 1, lineFeedCnt = 0, meta = None\<rparr>"
    and b: "buffers t = [EOL @ ''a'']" and c: "climbs t 2 2" and l: "length (nodes t) = 3"
    by simp_all
  have "\<exists>diffs t'. insert' 1 ''b'' None t = Some (diffs, t')
           \<and> buffers t' = (buffers t)[0 := buffers t ! 0 @ ''b'']
           \<and> piece (nd t' 2) = (piece (nd t 2))\<lparr>length' := length' (piece (nd t 2)) + int (length ''b'')\<rparr>
           \<and> length (nodes t') = length (nodes t)
           \<and> (\<forall>m. m \<noteq> 2 \<longrightarrow> piece (nd t' m) = piece (nd t m))"
    by (rule insert_coalesces [where k = 2 and pos = "\<lparr>node = 2, reminder = 1, startOffset = 1, startLineFeedCnt = 1\<rparr>", THEN conjunct1])
       (use f p b c l in \<open>simp_all add: SENTINEL_def EOL_def\<close>)
  with t p b l show ?thesis
    by (auto simp: EOL_def)
qed

subsection \<open>Undo and redo\<close>

text \<open>\<open>deleteNode\<close> leaves every piece as it is.\<close>

lemma samePieces_detach [intro!]: "samePieces t t' \<Longrightarrow> samePieces t (detach n t')"
  by (simp add: detach_def samePieces_setNode)

lemma samePieces_transplant [intro!]: "samePieces t t' \<Longrightarrow> samePieces t (transplant x y t')"
  unfolding transplant_def Let_def by auto

lemma deleteNodeFixup_loop_samePieces:
  assumes "deleteNodeFixup_loop n t = Some r"
  shows "samePieces t (snd r)"
proof (rule deleteNodeFixup_loop.raw_induct[where P = "\<lambda>n t r. samePieces t (snd r)" and xa = "(n, t)",
      unfolded prod.case, OF _ assms])
  fix f :: "nat \<Rightarrow> ('a, 'b) PieceNodeList_scheme \<Rightarrow> (nat \<times> ('a, 'b) PieceNodeList_scheme) option" and x t r
  assume IH: "\<And>x t r. f x t = Some r \<Longrightarrow> samePieces t (snd r)"
    and body: "(if \<not> isRoot t x \<and> isBlack t x then
        (if isLeft t x then
           (let w0 = right (nd t (parent (nd t x)));
                t1 = (if isRed t w0
                      then leftRotate (parent (nd t x)) (toRed (parent (nd t x)) (toBlack w0 t))
                      else t);
                w = (if isRed t w0 then right (nd t1 (parent (nd t1 x))) else w0)
            in if isBlack t1 (left (nd t1 w)) \<and> isBlack t1 (right (nd t1 w)) then
                 f (parent (nd t1 x)) (toRed w t1)
               else if isBlack t1 (right (nd t1 w)) then
                 f x (rightRotate w (toRed w (toBlack (left (nd t1 w)) t1)))
               else
                 (let t2 = setColor w (color (nd t1 (parent (nd t1 x)))) t1;
                      t3 = toBlack (parent (nd t2 x)) t2;
                      t4 = toBlack (right (nd t3 w)) t3;
                      t5 = leftRotate (parent (nd t4 x)) t4
                  in f (root t5) t5))
         else
           (let w0 = left (nd t (parent (nd t x)));
                t1 = (if isRed t w0
                      then rightRotate (parent (nd t x)) (toRed (parent (nd t x)) (toBlack w0 t))
                      else t);
                w = (if isRed t w0 then left (nd t1 (parent (nd t1 x))) else w0)
            in if isBlack t1 (right (nd t1 w)) \<and> isBlack t1 (left (nd t1 w)) then
                 f (parent (nd t1 x)) (toRed w t1)
               else if isBlack t1 (left (nd t1 w)) then
                 f x (leftRotate w (toRed w (toBlack (right (nd t1 w)) t1)))
               else
                 (let t2 = setColor w (color (nd t1 (parent (nd t1 x)))) t1;
                      t3 = toBlack (parent (nd t2 x)) t2;
                      t4 = toBlack (left (nd t3 w)) t3;
                      t5 = rightRotate (parent (nd t4 x)) t4
                  in f (root t5) t5)))
      else Some (x, t)) = Some r"
  have h: "f x1 t1 = Some r \<Longrightarrow> samePieces t t1 \<Longrightarrow> samePieces t (snd r)" for x1 t1
    by (rule samePieces_trans[OF _ IH])
  show "samePieces t (snd r)"
  proof (cases "\<not> isRoot t x \<and> isBlack t x")
    case False
    with body show ?thesis by auto
  next
    case c1: True
    show ?thesis
    proof (cases "isLeft t x")
      case c2: True
      show ?thesis
      proof (cases "isRed t (right (nd t (parent (nd t x))))")
        case c3: True
        from body c1 c2 c3 show ?thesis
          by (auto simp: Let_def split: if_split_asm elim!: h)
      next
        case c3: False
        from body c1 c2 c3 show ?thesis
          by (auto simp: Let_def split: if_split_asm elim!: h)
      qed
    next
      case c2: False
      show ?thesis
      proof (cases "isRed t (left (nd t (parent (nd t x))))")
        case c3: True
        from body c1 c2 c3 show ?thesis
          by (auto simp: Let_def split: if_split_asm elim!: h)
      next
        case c3: False
        from body c1 c2 c3 show ?thesis
          by (auto simp: Let_def split: if_split_asm elim!: h)
      qed
    qed
  qed
qed

lemma deleteNode_samePieces:
  assumes "deleteNode z t = Some t'"
  shows "samePieces t t'"
  using assms unfolding deleteNode_def deleteNodeFixup_def isNil_def
  by (auto simp: bind_eq_Some_conv Let_def split: if_split_asm
        dest!: updateMetaUpward_samePieces deleteNodeFixup_loop_samePieces
        elim!: samePieces_trans[rotated])

text \<open>On the sentinel the loop of \<open>deleteInner\<close> does not return: the piece of the sentinel
  has length 0, its successor is the sentinel, and the length still to delete stays what
  it is.\<close>

lemma deleteInner_loop_sentinel:
  fixes t :: PieceTree
  assumes "0 < len" and "length' (piece (nd t SENTINEL)) = 0" and "nodes t \<noteq> []"
  shows "deleteInner_loop len SENTINEL lfc pc t = None"
proof (cases "deleteInner_loop len SENTINEL lfc pc t")
  case (Some r)
  have "\<not> (0 < len \<and> SENTINEL = SENTINEL \<and> length' (piece (nd t SENTINEL)) = 0 \<and> nodes t \<noteq> [])"
  proof (rule deleteInner_loop.raw_induct[where P = "\<lambda>len n lfc pc t r.
        \<not> (0 < len \<and> n = SENTINEL \<and> length' (piece (nd t SENTINEL)) = 0 \<and> nodes t \<noteq> [])", OF _ Some])
    fix f :: "int \<Rightarrow> nat \<Rightarrow> int \<Rightarrow> NodePiece list \<Rightarrow> PieceTree \<Rightarrow> (int \<times> NodePiece list \<times> PieceTree) option"
      and len n lfc pc t r
    assume IH: "\<And>len n lfc pc t r. f len n lfc pc t = Some r \<Longrightarrow>
        \<not> (0 < len \<and> n = SENTINEL \<and> length' (piece (nd t SENTINEL)) = 0 \<and> nodes t \<noteq> [])"
      and body: "(if len > 0 then
        (if len = length' (piece (nd t n)) then do {
           t1 \<leftarrow> deleteNode n t;
           f (len - length' (piece (nd t1 n))) n
             (lfc + lineFeedCnt (piece (nd t1 n))) (pc @ [piece (nd t1 n)]) t1
         }
         else if len \<ge> length' (piece (nd t n)) then do {
           n' \<leftarrow> successor t n;
           t1 \<leftarrow> deleteNode n t;
           f (len - length' (piece (nd t1 n))) n'
             (lfc + lineFeedCnt (piece (nd t1 n))) (pc @ [piece (nd t1 n)]) t1
         }
         else
           (let p = piece (nd t n);
                originalStart = start p;
                originalLineFeedCnt = lineFeedCnt p;
                p1 = p\<lparr>start := start p + len, length' := length' p - len\<rparr>;
                p2 = p1\<lparr>lineFeedCnt := recomputeLineFeedsCntInPiece t p1\<rparr>;
                t1 = setPiece n p2 t
            in f 0 n (lfc + (originalLineFeedCnt - lineFeedCnt p2))
                 (pc @ [\<lparr>bufferIndex = bufferIndex p2, start = originalStart, length' = len,
                                   lineFeedCnt = originalLineFeedCnt - lineFeedCnt p2, meta = None\<rparr>])
                 t1))
      else Some (lfc, pc, t)) = Some r"
    show "\<not> (0 < len \<and> n = SENTINEL \<and> length' (piece (nd t SENTINEL)) = 0 \<and> nodes t \<noteq> [])"
    proof
      assume a: "0 < len \<and> n = SENTINEL \<and> length' (piece (nd t SENTINEL)) = 0 \<and> nodes t \<noteq> []"
      with body obtain t1 where d: "deleteNode SENTINEL t = Some t1"
        and rec: "f (len - length' (piece (nd t1 SENTINEL))) SENTINEL
             (lfc + lineFeedCnt (piece (nd t1 SENTINEL))) (pc @ [piece (nd t1 SENTINEL)]) t1 = Some r"
        by (auto simp: successor_def bind_eq_Some_conv split: if_split_asm)
      from a have "SENTINEL < length (nodes t)"
        by (simp add: SENTINEL_def)
      with deleteNode_samePieces[OF d]
      have "piece (nd t1 SENTINEL) = piece (nd t SENTINEL)" and "length (nodes t1) = length (nodes t)"
        by (simp_all add: samePieces_piece samePieces_length)
      with IH[OF rec] a show False
        by auto
    qed
  qed
  with assms show ?thesis
    by simp
qed simp

lemma newPieceTree_eq: "newPieceTree = Some st0"
  unfolding st0_def mkTree_def mkNode_def firstChange_def newPieceTree_def by code_simp

lemma calls_append: "calls (fs @ gs) t = calls fs t \<bind> calls gs"
  by (induction fs arbitrary: t) (auto split: option.splits)

text \<open>An insert past the end of the text puts the text at the end and records the offset
  it was given. After \<open>insert(0, "ab")\<close> and \<open>insert(3, "c")\<close> the text is \<open>"abc"\<close> and the
  change holds the inner offset 4; \<open>undo()\<close> looks for offset 4, is sent to the end of the
  last node and from there to the sentinel, and does not return.\<close>

lemma undo_of_insert_past_end:
  "(newPieceTree \<bind> calls [insert' 0 ''ab'' None, insert' 3 ''c'' None] \<bind> getText) = Some ''abc''
   \<and> map_option (\<lambda>t. hd (undoStack (changeHistory t)))
         (newPieceTree \<bind> calls [insert' 0 ''ab'' None, insert' 3 ''c'' None])
       = Some [InsertChange 4 1 (0, 3, 1) None [Diff diff_replace 1]]
   \<and> (newPieceTree \<bind> calls [insert' 0 ''ab'' None, insert' 3 ''c'' None, undo]) = None"
proof -
  define T where "T = setApplying True
     (mkTree [mkNode (0, 0, 0) BLACK (0, 0, 0) (0, 0) (0, 0) (0, 0),
              mkNode (0, 1, 1) BLACK (0, 0, 2) (0, 3) (0, 0) (0, 1),
              mkNode (1, 3, 0) RED (1, 0, 0) (0, 0) (0, 0) (0, 0)] 1 (EOL @ ''abc'')
        [[textChange 4 3 1], [textChange 1 1 2], [firstChange]] [])"
  have s: "newPieceTree \<bind> calls [insert' 0 ''ab'' None, insert' 3 ''c'' None]
      = Some (setApplying False T)"
    unfolding T_def mkTree_def mkNode_def firstChange_def textChange_def setApplying_def by code_simp
  have tx: "getText (setApplying False T) = Some ''abc''"
    unfolding T_def by code_simp
  have top: "undoStack (changeHistory (setApplying False T))
      = [InsertChange 4 1 (0, 3, 1) None [Diff diff_replace 1]] # tl (undoStack (changeHistory T))"
    unfolding T_def by (simp add: setApplying_def mkTree_def textChange_def)
  have ap: "setApplying True (setApplying False T) = T"
    unfolding T_def by (simp add: setApplying_def)
  have pos: "findByOffset T 4 = Some \<lparr>node = 2, reminder = 3, startOffset = 1, startLineFeedCnt = 1\<rparr>"
    unfolding T_def by code_simp
  have suc: "successor T 2 = Some SENTINEL"
    unfolding T_def by code_simp
  have facts: "length' (piece (nd T 2)) = 3" "length' (piece (nd T SENTINEL)) = 0" "nodes T \<noteq> []"
    unfolding T_def by (simp_all add: setApplying_def mkTree_def mkNode_def SENTINEL_def)
  have "deleteInner 4 1 T = None"
    unfolding deleteInner_def
    by (simp add: pos suc facts deleteInner_loop_sentinel)
  then have "undo (setApplying False T) = None"
    by (simp add: undo_def top ap)
  then have u: "calls [undo] (setApplying False T) = None"
    by simp
  have s0: "calls [insert' 0 ''ab'' None, insert' 3 ''c'' None] st0 = Some (setApplying False T)"
    using s by (simp only: newPieceTree_eq Option.bind.bind_lunit)
  have "calls ([insert' 0 ''ab'' None, insert' 3 ''c'' None] @ [undo]) st0 = None"
    by (simp only: calls_append s0 Option.bind.bind_lunit u)
  then have 3: "newPieceTree \<bind> calls [insert' 0 ''ab'' None, insert' 3 ''c'' None, undo] = None"
    by (simp only: newPieceTree_eq Option.bind.bind_lunit append.simps)
  have 1: "(newPieceTree \<bind> calls [insert' 0 ''ab'' None, insert' 3 ''c'' None] \<bind> getText) = Some ''abc''"
    by (simp only: s Option.bind.bind_lunit tx)
  have 2: "map_option (\<lambda>t. hd (undoStack (changeHistory t)))
         (newPieceTree \<bind> calls [insert' 0 ''ab'' None, insert' 3 ''c'' None])
       = Some [InsertChange 4 1 (0, 3, 1) None [Diff diff_replace 1]]"
    by (simp add: s top del: calls.simps)
  from 1 2 3 show ?thesis
    by (intro conjI)
qed

text \<open>C1. Each \<open>undo()\<close> restores \<open>getText()\<close> and \<open>getPieces()\<close> to the state before the
  most recent group, and \<open>redo()\<close> after it gives again what the group had produced. The
  text is not restored once a delete has removed part of a piece: \<open>deleteInner\<close> leaves the
  aggregates above that piece stale, and \<open>find\<close> then takes the same offset to different
  places in an insert and in the delete that undoes it. After \<open>insert(0, "hello")\<close>,
  \<open>insert(2, "XYZ")\<close> and \<open>delete(2, 1)\<close> the text is \<open>"heYZllo"\<close>, and the node of \<open>"llo"\<close>
  holds \<open>leftSize = 3\<close> over a left subtree of length 2. Then \<open>insert(5, "Q")\<close> gives
  \<open>"heYZQllo"\<close>, \<open>undo()\<close> gives \<open>"heYZQlo"\<close> instead of \<open>"heYZllo"\<close>, and \<open>redo()\<close> gives
  \<open>"heYZQQlo"\<close>. Nor is it restored after an insert past the end: after
  \<open>insert(0, "ab")\<close> and \<open>insert(3, "c")\<close>, \<open>undo()\<close> does not return.\<close>

theorem undo_does_not_restore_text:
  "map_option
     (\<lambda>t. (shape t (root t) \<langle>\<langle>\<langle>\<rangle>, 1, \<langle>\<rangle>\<rangle>, 3, \<langle>\<langle>\<langle>\<rangle>, 4, \<langle>\<rangle>\<rangle>, 2, \<langle>\<rangle>\<rangle>\<rangle>,
           leftSize (nd t 2), sumLength t [4]))
     (newPieceTree \<bind> calls [insert' 0 ''hello'' None, insert' 2 ''XYZ'' None, delete' 2 1])
   = Some (True, 3, 2)
   \<and> map (\<lambda>ops. newPieceTree
               \<bind> calls ([insert' 0 ''hello'' None, insert' 2 ''XYZ'' None, delete' 2 1] @ ops)
               \<bind> getText)
       [[], [insert' 5 ''Q'' None], [insert' 5 ''Q'' None, undo], [insert' 5 ''Q'' None, undo, redo]]
   = [Some ''heYZllo'', Some ''heYZQllo'', Some ''heYZQlo'', Some ''heYZQQlo'']
   \<and> (newPieceTree \<bind> calls [insert' 0 ''ab'' None, insert' 3 ''c'' None] \<bind> getText) = Some ''abc''
   \<and> (newPieceTree \<bind> calls [insert' 0 ''ab'' None, insert' 3 ''c'' None, undo]) = None"
proof -
  have "map_option
     (\<lambda>t. (shape t (root t) \<langle>\<langle>\<langle>\<rangle>, 1, \<langle>\<rangle>\<rangle>, 3, \<langle>\<langle>\<langle>\<rangle>, 4, \<langle>\<rangle>\<rangle>, 2, \<langle>\<rangle>\<rangle>\<rangle>,
           leftSize (nd t 2), sumLength t [4]))
     (newPieceTree \<bind> calls [insert' 0 ''hello'' None, insert' 2 ''XYZ'' None, delete' 2 1])
   = Some (True, 3, 2)"
    by code_simp
  moreover have "map (\<lambda>ops. newPieceTree
               \<bind> calls ([insert' 0 ''hello'' None, insert' 2 ''XYZ'' None, delete' 2 1] @ ops)
               \<bind> getText)
       [[], [insert' 5 ''Q'' None], [insert' 5 ''Q'' None, undo], [insert' 5 ''Q'' None, undo, redo]]
   = [Some ''heYZllo'', Some ''heYZQllo'', Some ''heYZQlo'', Some ''heYZQQlo'']"
    by code_simp
  ultimately show ?thesis
    using undo_of_insert_past_end by blast
qed

text \<open>The pieces differ after an undo even where the text is restored: no operation of
  the tree merges two pieces, so an undone insert that had split a piece leaves the two
  halves. After \<open>insert(0, "hello")\<close> the pieces are \<open>"hello"\<close>; after \<open>insert(2, "X")\<close> and
  \<open>undo()\<close> they are \<open>"he"\<close> and \<open>"llo"\<close>.\<close>

lemma undo_leaves_piece_split:
  "(newPieceTree \<bind> calls [insert' 0 ''hello'' None] \<bind> getPieces)
     = Some [Piece ''hello'' 5 None]
   \<and> (newPieceTree \<bind> calls [insert' 0 ''hello'' None, insert' 2 ''X'' None, undo] \<bind> getPieces)
     = Some [Piece ''he'' 2 None, Piece ''llo'' 3 None]"
  by code_simp

text \<open>Evaluation of the model on a state with symbolic lengths: every definition is
  unfolded and every loop is unrolled, the conditions being decided by arithmetic.\<close>

lemma bind_weak_cong: "x = y \<Longrightarrow> Option.bind x f = Option.bind y f"
  by simp

lemmas model_defs =
  insert'_def insertInner_def findByOffset_def find_def size_l_def size_n_def
  SENTINEL_def lineFeedCnt_l_def lineFeedCnt_n_def
  isNotNil_def isNil_def flushText_def appendToNode_def insertNewPiece_def createPiece_def insertFixedRight_def
  insertFixedLeft_def newNode_def
  insertAfter_def insertBefore_def after_def before_def
  setParent_def setRight_def setLeft_def setColor_def setPiece_def setNode_def createPieceNode_def
  updateMeta_def subtreeSize_def subtreeLineFeedCnt_def subtreeNodeCnt_def
  insertFixup_def isRed_def isBlack_def isLeft_def isRight_def isRoot_def toBlack_def toRed_def
  leftRotate_def rightRotate_def transplant_def detach_def
  insertDiffs_def deleteDiffs_def push_def
  createInsertChange_def createDeleteChange_def stack_push_def EOL_def Let_def
  successor_def predecessor_def splitNode_def computeLineFeedCnt_def
  deleteInner_def deleteNode_def deleteNodeFixup_def
  undo_def redo_def setApplying_def getTextInBuffer_def getTextInPiece_def
  getPieces_def getText_def flipInsert_def doUndo.simps doRedo.simps
  mkNode_def mkTree_def firstChange_def textChange_def

lemmas loop_simps =
  find_loop.simps lefest.simps rightest.simps climbLeft.simps climbRight.simps
  updateMetaUpward.simps insertFixup_loop.simps deleteNodeFixup_loop.simps
  deleteInner_loop.simps forEachPiece_loop.simps

lemma nat_one_plus [simp]: "nat (1 + int n) = Suc n"
  by simp

lemma nat_one_plus2 [simp]: "nat (1 + int n + int m) = Suc (n + m)"
  by simp

lemma filter_lf_take: "CHR 0x0A \<notin> set s \<Longrightarrow> filter (\<lambda>c. c = CHR 0x0A) (take k s) = []"
  by (auto simp: filter_empty_conv dest: in_set_takeD)

lemma filter_lf_drop: "CHR 0x0A \<notin> set s \<Longrightarrow> filter (\<lambda>c. c = CHR 0x0A) (drop k s) = []"
  by (auto simp: filter_empty_conv dest: in_set_dropD)

lemma filter_lf: "CHR 0x0A \<notin> set s \<Longrightarrow> filter (\<lambda>c. c = CHR 0x0A) s = []"
  by (induction s) auto

lemma step1:
  assumes "CHR 0x0A \<notin> set s" "s \<noteq> []"
  shows "insert' 0 s None st0 = Some ([Diff diff_replace 1], st1 s)"
proof -
  from assms have "0 < int (length s)"
    by simp_all
  with assms show ?thesis
    unfolding st0_def st1_def
    by (simp add: insertInner_loop_no_line_feed model_defs loop_simps del: length_greater_0_conv of_nat_0_less_iff
      cong: bind_weak_cong let_weak_cong prod.case_cong_weak option.case_cong_weak)
qed

lemma step11:
  assumes "CHR 0x0A \<notin> set s" "s \<noteq> []" "CHR 0x0A \<notin> set x" "x \<noteq> []"
  shows "map_option snd (insert' (int (length s)) x None (st1 s)) = Some (st11 s x)"
proof -
  from assms have "0 < int (length s)" "0 < int (length x)"
    by simp_all
  with assms show ?thesis
    unfolding st1_def st11_def
    by (simp add: insertInner_loop_no_line_feed substring_inside filter_lf filter_lf_take filter_lf_drop model_defs loop_simps 
      del: length_greater_0_conv of_nat_0_less_iff
      cong: bind_weak_cong let_weak_cong prod.case_cong_weak option.case_cong_weak)
qed

lemma step12:
  assumes "CHR 0x0A \<notin> set s" "s \<noteq> []" "CHR 0x0A \<notin> set x" "x \<noteq> []"
  shows "map_option snd (undo (st11 s x)) = Some (st12 s x)"
proof -
  from assms have "0 < int (length s)" "0 < int (length x)"
    by simp_all
  with assms show ?thesis
    unfolding st11_def st12_def
    by (simp add: insertInner_loop_no_line_feed substring_inside filter_lf filter_lf_take filter_lf_drop model_defs loop_simps 
      del: length_greater_0_conv of_nat_0_less_iff
      cong: bind_weak_cong let_weak_cong prod.case_cong_weak option.case_cong_weak)
qed

lemma step13:
  assumes "CHR 0x0A \<notin> set s" "s \<noteq> []" "CHR 0x0A \<notin> set x" "x \<noteq> []"
  shows "map_option snd (undo (st12 s x)) = Some (st13 s x)"
proof -
  from assms have "0 < int (length s)" "0 < int (length x)"
    by simp_all
  with assms show ?thesis
    unfolding st12_def st13_def
    by (simp add: insertInner_loop_no_line_feed substring_inside filter_lf filter_lf_take filter_lf_drop model_defs loop_simps 
      del: length_greater_0_conv of_nat_0_less_iff
      cong: bind_weak_cong let_weak_cong prod.case_cong_weak option.case_cong_weak)
qed

lemma step14:
  assumes "CHR 0x0A \<notin> set s" "s \<noteq> []" "CHR 0x0A \<notin> set x" "x \<noteq> []"
  shows "map_option snd (redo (st13 s x)) = Some (st14 s x)"
proof -
  from assms have "0 < int (length s)" "0 < int (length x)"
    by simp_all
  with assms show ?thesis
    unfolding st13_def st14_def
    by (simp add: insertInner_loop_no_line_feed substring_inside filter_lf filter_lf_take filter_lf_drop model_defs loop_simps 
      del: length_greater_0_conv of_nat_0_less_iff
      cong: bind_weak_cong let_weak_cong prod.case_cong_weak option.case_cong_weak)
qed

lemma step15:
  assumes "CHR 0x0A \<notin> set s" "s \<noteq> []" "CHR 0x0A \<notin> set x" "x \<noteq> []"
  shows "map_option snd (redo (st14 s x)) = Some (st15 s x)"
proof -
  from assms have "0 < int (length s)" "0 < int (length x)"
    by simp_all
  with assms show ?thesis
    unfolding st14_def st15_def
    by (simp add: insertInner_loop_no_line_feed substring_inside filter_lf filter_lf_take filter_lf_drop model_defs loop_simps 
      del: length_greater_0_conv of_nat_0_less_iff
      cong: bind_weak_cong let_weak_cong prod.case_cong_weak option.case_cong_weak)
qed

lemma step16:
  assumes "CHR 0x0A \<notin> set s" "s \<noteq> []" "CHR 0x0A \<notin> set x" "x \<noteq> []"
  shows "map_option snd (redo (st12 s x)) = Some (st16 s x)"
proof -
  from assms have "0 < int (length s)" "0 < int (length x)"
    by simp_all
  with assms show ?thesis
    unfolding st12_def st16_def
    by (simp add: insertInner_loop_no_line_feed substring_inside filter_lf filter_lf_take filter_lf_drop model_defs loop_simps 
      del: length_greater_0_conv of_nat_0_less_iff
      cong: bind_weak_cong let_weak_cong prod.case_cong_weak option.case_cong_weak)
qed

lemma step21:
  assumes "CHR 0x0A \<notin> set s" "s \<noteq> []" "CHR 0x0A \<notin> set x" "x \<noteq> []"
    and "0 < k" "k < length s"
  shows "map_option snd (insert' (int k) x None (st1 s)) = Some (st21 s x k)"
proof -
  from assms have "0 < int (length s)" "0 < int (length x)"
    by simp_all
  with assms show ?thesis
    unfolding st1_def st21_def
    by (simp add: insertInner_loop_no_line_feed substring_inside filter_lf filter_lf_take filter_lf_drop model_defs loop_simps 
      del: length_greater_0_conv of_nat_0_less_iff
      cong: bind_weak_cong let_weak_cong prod.case_cong_weak option.case_cong_weak)
qed

lemma step22:
  assumes "CHR 0x0A \<notin> set s" "s \<noteq> []" "CHR 0x0A \<notin> set x" "x \<noteq> []"
    and "0 < k" "k < length s"
  shows "map_option snd (undo (st21 s x k)) = Some (st22 s x k)"
proof -
  from assms have "0 < int (length s)" "0 < int (length x)"
    by simp_all
  with assms show ?thesis
    unfolding st21_def st22_def
    by (simp add: insertInner_loop_no_line_feed substring_inside filter_lf filter_lf_take filter_lf_drop model_defs loop_simps 
      del: length_greater_0_conv of_nat_0_less_iff
      cong: bind_weak_cong let_weak_cong prod.case_cong_weak option.case_cong_weak)
qed

lemma step23:
  assumes "CHR 0x0A \<notin> set s" "s \<noteq> []" "CHR 0x0A \<notin> set x" "x \<noteq> []"
    and "0 < k" "k < length s"
  shows "map_option snd (redo (st22 s x k)) = Some (st23 s x k)"
proof -
  from assms have "0 < int (length s)" "0 < int (length x)"
    by simp_all
  with assms show ?thesis
    unfolding st22_def st23_def
    by (simp add: insertInner_loop_no_line_feed substring_inside filter_lf filter_lf_take filter_lf_drop model_defs loop_simps 
      del: length_greater_0_conv of_nat_0_less_iff
      cong: bind_weak_cong let_weak_cong prod.case_cong_weak option.case_cong_weak)
qed

lemma step31:
  assumes "CHR 0x0A \<notin> set s" "s \<noteq> []" "CHR 0x0A \<notin> set x" "x \<noteq> []"
  shows "map_option snd (insert' 0 x None (st1 s)) = Some (st31 s x)"
proof -
  from assms have "0 < int (length s)" "0 < int (length x)"
    by simp_all
  with assms show ?thesis
    unfolding st1_def st31_def
    by (simp add: insertInner_loop_no_line_feed substring_inside filter_lf filter_lf_take filter_lf_drop model_defs loop_simps 
      del: length_greater_0_conv of_nat_0_less_iff
      cong: bind_weak_cong let_weak_cong prod.case_cong_weak option.case_cong_weak)
qed

lemma step32:
  assumes "CHR 0x0A \<notin> set s" "s \<noteq> []" "CHR 0x0A \<notin> set x" "x \<noteq> []"
  shows "map_option snd (undo (st31 s x)) = Some (st32 s x)"
proof -
  from assms have "0 < int (length s)" "0 < int (length x)"
    by simp_all
  with assms show ?thesis
    unfolding st31_def st32_def
    by (simp add: insertInner_loop_no_line_feed substring_inside filter_lf filter_lf_take filter_lf_drop model_defs loop_simps 
      del: length_greater_0_conv of_nat_0_less_iff
      cong: bind_weak_cong let_weak_cong prod.case_cong_weak option.case_cong_weak)
qed

lemma step33:
  assumes "CHR 0x0A \<notin> set s" "s \<noteq> []" "CHR 0x0A \<notin> set x" "x \<noteq> []"
  shows "map_option snd (redo (st32 s x)) = Some (st33 s x)"
proof -
  from assms have "0 < int (length s)" "0 < int (length x)"
    by simp_all
  with assms show ?thesis
    unfolding st32_def st33_def
    by (simp add: insertInner_loop_no_line_feed substring_inside filter_lf filter_lf_take filter_lf_drop model_defs loop_simps 
      del: length_greater_0_conv of_nat_0_less_iff
      cong: bind_weak_cong let_weak_cong prod.case_cong_weak option.case_cong_weak)
qed

lemma pieces12:
  assumes "CHR 0x0A \<notin> set s" "s \<noteq> []" "CHR 0x0A \<notin> set x" "x \<noteq> []"
  shows "getPieces (st12 s x) = Some [Piece s (int (length s)) None]"
proof -
  from assms have "0 < int (length s)" "0 < int (length x)"
    by simp_all
  with assms show ?thesis
    unfolding st12_def
    by (simp add: substring_inside model_defs loop_simps
      del: length_greater_0_conv of_nat_0_less_iff
      cong: bind_weak_cong let_weak_cong prod.case_cong_weak option.case_cong_weak)
qed

lemma pieces13:
  assumes "CHR 0x0A \<notin> set s" "s \<noteq> []" "CHR 0x0A \<notin> set x" "x \<noteq> []"
  shows "getPieces (st13 s x) = Some []"
proof -
  from assms have "0 < int (length s)" "0 < int (length x)"
    by simp_all
  with assms show ?thesis
    unfolding st13_def
    by (simp add: substring_inside model_defs loop_simps
      del: length_greater_0_conv of_nat_0_less_iff
      cong: bind_weak_cong let_weak_cong prod.case_cong_weak option.case_cong_weak)
qed

lemma pieces15:
  assumes "CHR 0x0A \<notin> set s" "s \<noteq> []" "CHR 0x0A \<notin> set x" "x \<noteq> []"
  shows "getPieces (st15 s x) = Some [Piece (s @ x) (int (length s) + int (length x)) None]"
proof -
  from assms have "0 < int (length s)" "0 < int (length x)"
    by simp_all
  with assms show ?thesis
    unfolding st15_def
    by (simp add: substring_inside model_defs loop_simps
      del: length_greater_0_conv of_nat_0_less_iff
      cong: bind_weak_cong let_weak_cong prod.case_cong_weak option.case_cong_weak)
qed

lemma pieces16:
  assumes "CHR 0x0A \<notin> set s" "s \<noteq> []" "CHR 0x0A \<notin> set x" "x \<noteq> []"
  shows "getPieces (st16 s x) = Some [Piece s (int (length s)) None, Piece x (int (length x)) None]"
proof -
  from assms have "0 < int (length s)" "0 < int (length x)"
    by simp_all
  with assms show ?thesis
    unfolding st16_def
    by (simp add: substring_inside model_defs loop_simps
      del: length_greater_0_conv of_nat_0_less_iff
      cong: bind_weak_cong let_weak_cong prod.case_cong_weak option.case_cong_weak)
qed

lemma pieces22:
  assumes "CHR 0x0A \<notin> set s" "s \<noteq> []" "CHR 0x0A \<notin> set x" "x \<noteq> []"
    and "0 < k" "k < length s"
  shows "getPieces (st22 s x k) = Some [Piece (take k s) (int k) None, Piece (drop k s) (int (length s) - int k) None]"
proof -
  from assms have "0 < int (length s)" "0 < int (length x)"
    by simp_all
  with assms show ?thesis
    unfolding st22_def
    by (simp add: substring_inside model_defs loop_simps
      del: length_greater_0_conv of_nat_0_less_iff
      cong: bind_weak_cong let_weak_cong prod.case_cong_weak option.case_cong_weak)
qed

lemma pieces23:
  assumes "CHR 0x0A \<notin> set s" "s \<noteq> []" "CHR 0x0A \<notin> set x" "x \<noteq> []"
    and "0 < k" "k < length s"
  shows "getPieces (st23 s x k) = Some [Piece (take k s) (int k) None, Piece x (int (length x)) None, Piece (drop k s) (int (length s) - int k) None]"
proof -
  from assms have "0 < int (length s)" "0 < int (length x)"
    by simp_all
  with assms show ?thesis
    unfolding st23_def
    by (simp add: substring_inside model_defs loop_simps
      del: length_greater_0_conv of_nat_0_less_iff
      cong: bind_weak_cong let_weak_cong prod.case_cong_weak option.case_cong_weak)
qed

lemma pieces32:
  assumes "CHR 0x0A \<notin> set s" "s \<noteq> []" "CHR 0x0A \<notin> set x" "x \<noteq> []"
  shows "getPieces (st32 s x) = Some [Piece s (int (length s)) None]"
proof -
  from assms have "0 < int (length s)" "0 < int (length x)"
    by simp_all
  with assms show ?thesis
    unfolding st32_def
    by (simp add: substring_inside model_defs loop_simps
      del: length_greater_0_conv of_nat_0_less_iff
      cong: bind_weak_cong let_weak_cong prod.case_cong_weak option.case_cong_weak)
qed

lemma pieces33:
  assumes "CHR 0x0A \<notin> set s" "s \<noteq> []" "CHR 0x0A \<notin> set x" "x \<noteq> []"
  shows "getPieces (st33 s x) = Some [Piece x (int (length x)) None, Piece s (int (length s)) None]"
proof -
  from assms have "0 < int (length s)" "0 < int (length x)"
    by simp_all
  with assms show ?thesis
    unfolding st33_def
    by (simp add: substring_inside model_defs loop_simps
      del: length_greater_0_conv of_nat_0_less_iff
      cong: bind_weak_cong let_weak_cong prod.case_cong_weak option.case_cong_weak)
qed

lemma calls_step: "calls (f # fs) t = Option.bind (map_option snd (f t)) (calls fs)"
  by (cases "f t") auto


text \<open>On a new tree, for all non-empty texts \<open>s\<close> and \<open>x\<close> without line feed
  and every position \<open>k \<le> length s\<close>: after \<open>insert(0, s)\<close> and \<open>insert(k, x)\<close> an \<open>undo()\<close>
  gives the text \<open>s\<close> again, with the pieces \<open>[s]\<close> when \<open>k\<close> is 0 or the length of \<open>s\<close> and
  the two halves of \<open>s\<close> when the insert had split the piece; a \<open>redo()\<close> after it gives the
  text the insert had produced. For \<open>k = length s\<close> a second \<open>undo()\<close> gives the empty text
  and \<open>redo(); redo()\<close> gives \<open>s\<close> followed by \<open>x\<close>.\<close>

lemma undo_redo_restore_text:
  assumes "CHR 0x0A \<notin> set s" "s \<noteq> []" "CHR 0x0A \<notin> set x" "x \<noteq> []" "k \<le> length s"
  shows "(newPieceTree \<bind> calls [insert' 0 s None, insert' (int k) x None, undo] \<bind> getText)
           = Some s
       \<and> (newPieceTree \<bind> calls [insert' 0 s None, insert' (int k) x None, undo] \<bind> getPieces)
           = Some (if 0 < k \<and> k < length s
                   then [Piece (take k s) (int k) None,
                         Piece (drop k s) (int (length s) - int k) None]
                   else [Piece s (int (length s)) None])
       \<and> (newPieceTree \<bind> calls [insert' 0 s None, insert' (int k) x None, undo, redo] \<bind> getText)
           = Some (take k s @ x @ drop k s)
       \<and> (newPieceTree \<bind> calls [insert' 0 s None, insert' (int (length s)) x None, undo, undo]
             \<bind> getText) = Some []
       \<and> (newPieceTree \<bind> calls [insert' 0 s None, insert' (int (length s)) x None, undo, undo,
                                    redo, redo] \<bind> getText) = Some (s @ x)"
proof -
  note a = assms(1-4)
  have s1: "map_option snd (insert' 0 s None st0) = Some (st1 s)"
    by (simp add: calls_step del: calls.simps(2) add: step1[OF assms(1,2)])
  have start: "(newPieceTree \<bind> calls (insert' 0 s None # fs)) = calls fs (st1 s)" for fs
    by (simp add: newPieceTree_eq calls_step s1 del: calls.simps(2))
  have end1: "calls [insert' (int (length s)) x None, undo] (st1 s) = Some (st12 s x)"
    by (simp add: calls_step del: calls.simps(2) add: step11[OF a] step12[OF a])
  have end13: "calls [insert' (int (length s)) x None, undo, undo] (st1 s) = Some (st13 s x)"
    by (simp add: calls_step del: calls.simps(2) add: step11[OF a] step12[OF a] step13[OF a])
  have end15: "calls [insert' (int (length s)) x None, undo, undo, redo, redo] (st1 s) = Some (st15 s x)"
    by (simp add: calls_step del: calls.simps(2) add: step11[OF a] step12[OF a] step13[OF a]
        step14[OF a] step15[OF a])
  have end16: "calls [insert' (int (length s)) x None, undo, redo] (st1 s) = Some (st16 s x)"
    by (simp add: calls_step del: calls.simps(2) add: step11[OF a] step12[OF a] step16[OF a])
  have end3: "calls [insert' 0 x None, undo] (st1 s) = Some (st32 s x)"
    by (simp add: calls_step del: calls.simps(2) add: step31[OF a] step32[OF a])
  have end33: "calls [insert' 0 x None, undo, redo] (st1 s) = Some (st33 s x)"
    by (simp add: calls_step del: calls.simps(2) add: step31[OF a] step32[OF a] step33[OF a])
  have last2: "(newPieceTree \<bind> calls [insert' 0 s None, insert' (int (length s)) x None, undo, undo]
             \<bind> getText) = Some []"
    "(newPieceTree \<bind> calls [insert' 0 s None, insert' (int (length s)) x None, undo, undo,
                                    redo, redo] \<bind> getText) = Some (s @ x)"
    by (simp_all add: start end13 end15 getText_def pieces13[OF a] pieces15[OF a] del: calls.simps(2))
  consider (atFront) "k = 0" | (inside) "0 < k" "k < length s" | (atEnd) "k = length s"
    using assms(5) by linarith
  then have "(newPieceTree \<bind> calls [insert' 0 s None, insert' (int k) x None, undo] \<bind> getPieces)
           = Some (if 0 < k \<and> k < length s
                   then [Piece (take k s) (int k) None,
                         Piece (drop k s) (int (length s) - int k) None]
                   else [Piece s (int (length s)) None])
       \<and> (newPieceTree \<bind> calls [insert' 0 s None, insert' (int k) x None, undo, redo] \<bind> getPieces)
           = Some (if k = 0 then [Piece x (int (length x)) None, Piece s (int (length s)) None]
                   else if k < length s
                   then [Piece (take k s) (int k) None, Piece x (int (length x)) None,
                         Piece (drop k s) (int (length s) - int k) None]
                   else [Piece s (int (length s)) None, Piece x (int (length x)) None])"
  proof cases
    case atFront
    with assms(2) show ?thesis
      by (simp add: start end3 end33 pieces32[OF a] pieces33[OF a] del: calls.simps(2))
  next
    case inside
    have "calls [insert' (int k) x None, undo] (st1 s) = Some (st22 s x k)"
      "calls [insert' (int k) x None, undo, redo] (st1 s) = Some (st23 s x k)"
      by (simp_all add: calls_step del: calls.simps(2) add: step21[OF a inside] step22[OF a inside]
            step23[OF a inside])
    with inside show ?thesis
      by (simp add: start pieces22[OF a inside] pieces23[OF a inside] del: calls.simps(2))
  next
    case atEnd
    with assms(2) show ?thesis
      by (simp add: start end1 end16 pieces12[OF a] pieces16[OF a] del: calls.simps(2))
  qed
  then have "(newPieceTree \<bind> calls [insert' 0 s None, insert' (int k) x None, undo] \<bind> getPieces)
           = Some (if 0 < k \<and> k < length s
                   then [Piece (take k s) (int k) None,
                         Piece (drop k s) (int (length s) - int k) None]
                   else [Piece s (int (length s)) None])"
    and "(newPieceTree \<bind> calls [insert' 0 s None, insert' (int k) x None, undo] \<bind> getText)
           = Some s"
    and "(newPieceTree \<bind> calls [insert' 0 s None, insert' (int k) x None, undo, redo] \<bind> getText)
           = Some (take k s @ x @ drop k s)"
    using assms(5)
    by (auto simp: getText_def bind_eq_Some_conv split: if_splits)
  with last2 show ?thesis
    by blast
qed

text \<open>The scenario of the specification: \<open>"hello"\<close>, then \<open>" world"\<close> at its end.\<close>

lemma undo_redo_restore_text_witness:
  "(newPieceTree \<bind> calls [insert' 0 ''hello'' None, insert' 5 '' world'' None, undo] \<bind> getText)
     = Some ''hello''
   \<and> (newPieceTree \<bind> calls [insert' 0 ''hello'' None, insert' 5 '' world'' None, undo] \<bind> getPieces)
     = Some [Piece ''hello'' 5 None]
   \<and> (newPieceTree \<bind> calls [insert' 0 ''hello'' None, insert' 5 '' world'' None, undo, redo]
         \<bind> getText) = Some ''hello world''
   \<and> (newPieceTree \<bind> calls [insert' 0 ''hello'' None, insert' 5 '' world'' None, undo, undo]
         \<bind> getText) = Some []
   \<and> (newPieceTree \<bind> calls [insert' 0 ''hello'' None, insert' 5 '' world'' None, undo, undo,
                                redo, redo] \<bind> getText) = Some ''hello world''"
  using undo_redo_restore_text [of "''hello''" "'' world''" 5]
  by simp

subsection \<open>\<open>change\<close>\<close>

text \<open>The operations of the tree reach the change history only through \<open>push\<close>. Run on
  a state that differs in its history alone, each of them returns under the same
  conditions, does the same to the tree and the buffers, and leaves the other history as
  it is.\<close>

named_theorems hist

lemma hist_prims [hist]:
  fixes t :: "'z PieceTree_scheme"
  shows "setNode n f (t\<lparr>changeHistory := h\<rparr>) = (setNode n f t)\<lparr>changeHistory := h\<rparr>"
    and "toRed n (t\<lparr>changeHistory := h\<rparr>) = (toRed n t)\<lparr>changeHistory := h\<rparr>"
    and "toBlack n (t\<lparr>changeHistory := h\<rparr>) = (toBlack n t)\<lparr>changeHistory := h\<rparr>"
    and "setColor n c (t\<lparr>changeHistory := h\<rparr>) = (setColor n c t)\<lparr>changeHistory := h\<rparr>"
    and "setParent n p (t\<lparr>changeHistory := h\<rparr>) = (setParent n p t)\<lparr>changeHistory := h\<rparr>"
    and "setLeft n p (t\<lparr>changeHistory := h\<rparr>) = (setLeft n p t)\<lparr>changeHistory := h\<rparr>"
    and "setRight n p (t\<lparr>changeHistory := h\<rparr>) = (setRight n p t)\<lparr>changeHistory := h\<rparr>"
    and "setPiece n q (t\<lparr>changeHistory := h\<rparr>) = (setPiece n q t)\<lparr>changeHistory := h\<rparr>"
    and "detach n (t\<lparr>changeHistory := h\<rparr>) = (detach n t)\<lparr>changeHistory := h\<rparr>"
    and "updateMeta n (t\<lparr>changeHistory := h\<rparr>) = (updateMeta n t)\<lparr>changeHistory := h\<rparr>"
    and "(t\<lparr>changeHistory := h\<rparr>)\<lparr>root := r\<rparr> = (t\<lparr>root := r\<rparr>)\<lparr>changeHistory := h\<rparr>"
  by (simp_all add: setNode_def toRed_def toBlack_def setColor_def setParent_def setLeft_def
        setRight_def setPiece_def detach_def updateMeta_def subtreeSize_def subtreeLineFeedCnt_def
        subtreeNodeCnt_def)

lemma hist_reads [hist]:
  fixes t :: "'z PieceTree_scheme"
  shows "isRoot (t\<lparr>changeHistory := h\<rparr>) n = isRoot t n"
    and "isLeft (t\<lparr>changeHistory := h\<rparr>) n = isLeft t n"
    and "isRight (t\<lparr>changeHistory := h\<rparr>) n = isRight t n"
    and "isRed (t\<lparr>changeHistory := h\<rparr>) n = isRed t n"
    and "isBlack (t\<lparr>changeHistory := h\<rparr>) n = isBlack t n"
    and "size_l (t\<lparr>changeHistory := h\<rparr>) = size_l t"
    and "lineFeedCnt_l (t\<lparr>changeHistory := h\<rparr>) = lineFeedCnt_l t"
  by (simp_all add: isRoot_def isLeft_def isRight_def isRed_def isBlack_def size_l_def lineFeedCnt_l_def)

lemma hist_rotate [hist]:
  fixes t :: "'z PieceTree_scheme"
  shows "leftRotate n (t\<lparr>changeHistory := h\<rparr>) = (leftRotate n t)\<lparr>changeHistory := h\<rparr>"
    and "rightRotate n (t\<lparr>changeHistory := h\<rparr>) = (rightRotate n t)\<lparr>changeHistory := h\<rparr>"
    and "transplant n m (t\<lparr>changeHistory := h\<rparr>) = (transplant n m t)\<lparr>changeHistory := h\<rparr>"
  by (simp_all add: leftRotate_def rightRotate_def transplant_def Let_def hist)

text \<open>A function that maps results along a change of the history whenever it returns
  does so always.\<close>

lemma hist_lift:
  fixes f :: "'z PieceTree_scheme \<Rightarrow> 'r option"
  assumes "\<And>t h r. f t = Some r \<Longrightarrow> f (t\<lparr>changeHistory := h\<rparr>) = Some (up h r)"
  shows "f (t\<lparr>changeHistory := h\<rparr>) = map_option (up h) (f t)"
proof (cases "f t")
  case (Some r)
  then show ?thesis by (simp add: assms)
next
  case None
  show ?thesis
  proof (cases "f (t\<lparr>changeHistory := h\<rparr>)")
    case (Some r)
    from assms[OF this, of "changeHistory t"] None show ?thesis by simp
  qed (simp add: None)
qed

text \<open>Readers that walk the tree.\<close>

lemma lefest_hist_Some:
  fixes t :: "'z PieceTree_scheme"
  assumes "lefest t n = Some r"
  shows "lefest (t\<lparr>changeHistory := h\<rparr>) n = Some r"
  apply (rule lefest.raw_induct[where P = "\<lambda>t n r. lefest (t\<lparr>changeHistory := h\<rparr>) n = Some r", OF _ assms])
  apply (subst lefest.simps)
  apply (auto split: if_splits)
  done

lemma rightest_hist_Some:
  fixes t :: "'z PieceTree_scheme"
  assumes "rightest t n = Some r"
  shows "rightest (t\<lparr>changeHistory := h\<rparr>) n = Some r"
  apply (rule rightest.raw_induct[where P = "\<lambda>t n r. rightest (t\<lparr>changeHistory := h\<rparr>) n = Some r", OF _ assms])
  apply (subst rightest.simps)
  apply (auto split: if_splits)
  done

lemma climbRight_hist_Some:
  fixes t :: "'z PieceTree_scheme"
  assumes "climbRight t n = Some r"
  shows "climbRight (t\<lparr>changeHistory := h\<rparr>) n = Some r"
  apply (rule climbRight.raw_induct[where P = "\<lambda>t n r. climbRight (t\<lparr>changeHistory := h\<rparr>) n = Some r", OF _ assms])
  apply (subst climbRight.simps)
  apply (auto split: if_splits)
  done

lemma climbLeft_hist_Some:
  fixes t :: "'z PieceTree_scheme"
  assumes "climbLeft t n = Some r"
  shows "climbLeft (t\<lparr>changeHistory := h\<rparr>) n = Some r"
  apply (rule climbLeft.raw_induct[where P = "\<lambda>t n r. climbLeft (t\<lparr>changeHistory := h\<rparr>) n = Some r", OF _ assms])
  apply (subst climbLeft.simps)
  apply (auto split: if_splits)
  done

lemma find_loop_hist_Some:
  fixes t :: "'z PieceTree_scheme"
  assumes "find_loop t n offset so slf = Some r"
  shows "find_loop (t\<lparr>changeHistory := h\<rparr>) n offset so slf = Some r"
  apply (rule find_loop.raw_induct[where P = "\<lambda>t n offset so slf r. find_loop (t\<lparr>changeHistory := h\<rparr>) n offset so slf = Some r", OF _ assms])
  apply (subst find_loop.simps)
  apply (auto split: if_splits)
  done

lemma hist_walks [hist]:
  fixes t :: "'z PieceTree_scheme"
  shows "lefest (t\<lparr>changeHistory := h\<rparr>) n = lefest t n"
    and "rightest (t\<lparr>changeHistory := h\<rparr>) n = rightest t n"
    and "climbRight (t\<lparr>changeHistory := h\<rparr>) n = climbRight t n"
    and "climbLeft (t\<lparr>changeHistory := h\<rparr>) n = climbLeft t n"
    and "find_loop (t\<lparr>changeHistory := h\<rparr>) n offset so slf = find_loop t n offset so slf"
  using hist_lift[where f = "\<lambda>t. lefest t n" and up = "\<lambda>h r. r", OF lefest_hist_Some, where t = t and h = h]
        hist_lift[where f = "\<lambda>t. rightest t n" and up = "\<lambda>h r. r", OF rightest_hist_Some, where t = t and h = h]
        hist_lift[where f = "\<lambda>t. climbRight t n" and up = "\<lambda>h r. r", OF climbRight_hist_Some, where t = t and h = h]
        hist_lift[where f = "\<lambda>t. climbLeft t n" and up = "\<lambda>h r. r", OF climbLeft_hist_Some, where t = t and h = h]
        hist_lift[where f = "\<lambda>t. find_loop t n offset so slf" and up = "\<lambda>h r. r", OF find_loop_hist_Some, where t = t and h = h]
  by (simp_all add: option.map_ident)

lemma hist_find [hist]:
  fixes t :: "'z PieceTree_scheme"
  shows "successor (t\<lparr>changeHistory := h\<rparr>) n = successor t n"
    and "predecessor (t\<lparr>changeHistory := h\<rparr>) n = predecessor t n"
    and "find (t\<lparr>changeHistory := h\<rparr>) offset = find t offset"
  by (simp_all add: successor_def predecessor_def find_def hist)

text \<open>The operations that restructure the tree.\<close>

lemma updateMetaUpward_hist_Some:
  fixes t :: "'z PieceTree_scheme"
  assumes "updateMetaUpward n t = Some r"
  shows "updateMetaUpward n (t\<lparr>changeHistory := h\<rparr>) = Some (r\<lparr>changeHistory := h\<rparr>)"
  apply (rule updateMetaUpward.raw_induct[where P = "\<lambda>n t r. updateMetaUpward n (t\<lparr>changeHistory := h\<rparr>) = Some (r\<lparr>changeHistory := h\<rparr>)", OF _ assms])
  apply (subst updateMetaUpward.simps)
  apply (auto split: if_splits simp: hist)
  done

lemma insertFixup_loop_hist_Some:
  fixes t :: "'z PieceTree_scheme"
  assumes "insertFixup_loop n t = Some r"
  shows "insertFixup_loop n (t\<lparr>changeHistory := h\<rparr>) = Some (r\<lparr>changeHistory := h\<rparr>)"
  apply (rule insertFixup_loop.raw_induct[where P = "\<lambda>n t r. insertFixup_loop n (t\<lparr>changeHistory := h\<rparr>) = Some (r\<lparr>changeHistory := h\<rparr>)", OF _ assms])
  apply (subst insertFixup_loop.simps)
  apply (auto split: if_splits simp: hist Let_def)
  done

lemma deleteNodeFixup_loop_hist_Some:
  fixes t :: "'z PieceTree_scheme"
  assumes "deleteNodeFixup_loop n t = Some r"
  shows "deleteNodeFixup_loop n (t\<lparr>changeHistory := h\<rparr>) = Some (fst r, (snd r)\<lparr>changeHistory := h\<rparr>)"
proof (rule deleteNodeFixup_loop.raw_induct[where P = "\<lambda>n t r. deleteNodeFixup_loop n (t\<lparr>changeHistory := h\<rparr>) = Some (fst r, (snd r)\<lparr>changeHistory := h\<rparr>)" and xa = "(n, t)", unfolded prod.case, OF _ assms])
  fix f :: "nat \<Rightarrow> 'z PieceTree_scheme \<Rightarrow> (nat \<times> 'z PieceTree_scheme) option" and x t r
  assume IH: "\<And>x t r. f x t = Some r \<Longrightarrow>
      deleteNodeFixup_loop x (t\<lparr>changeHistory := h\<rparr>) = Some (fst r, (snd r)\<lparr>changeHistory := h\<rparr>)"
    and body: "(if \<not> isRoot t x \<and> isBlack t x then
        (if isLeft t x then
           (let w0 = right (nd t (parent (nd t x)));
                t1 = (if isRed t w0
                      then leftRotate (parent (nd t x)) (toRed (parent (nd t x)) (toBlack w0 t))
                      else t);
                w = (if isRed t w0 then right (nd t1 (parent (nd t1 x))) else w0)
            in if isBlack t1 (left (nd t1 w)) \<and> isBlack t1 (right (nd t1 w)) then
                 f (parent (nd t1 x)) (toRed w t1)
               else if isBlack t1 (right (nd t1 w)) then
                 f x (rightRotate w (toRed w (toBlack (left (nd t1 w)) t1)))
               else
                 (let t2 = setColor w (color (nd t1 (parent (nd t1 x)))) t1;
                      t3 = toBlack (parent (nd t2 x)) t2;
                      t4 = toBlack (right (nd t3 w)) t3;
                      t5 = leftRotate (parent (nd t4 x)) t4
                  in f (root t5) t5))
         else
           (let w0 = left (nd t (parent (nd t x)));
                t1 = (if isRed t w0
                      then rightRotate (parent (nd t x)) (toRed (parent (nd t x)) (toBlack w0 t))
                      else t);
                w = (if isRed t w0 then left (nd t1 (parent (nd t1 x))) else w0)
            in if isBlack t1 (right (nd t1 w)) \<and> isBlack t1 (left (nd t1 w)) then
                 f (parent (nd t1 x)) (toRed w t1)
               else if isBlack t1 (left (nd t1 w)) then
                 f x (leftRotate w (toRed w (toBlack (right (nd t1 w)) t1)))
               else
                 (let t2 = setColor w (color (nd t1 (parent (nd t1 x)))) t1;
                      t3 = toBlack (parent (nd t2 x)) t2;
                      t4 = toBlack (left (nd t3 w)) t3;
                      t5 = rightRotate (parent (nd t4 x)) t4
                  in f (root t5) t5)))
      else Some (x, t)) = Some r"
  show "deleteNodeFixup_loop x (t\<lparr>changeHistory := h\<rparr>) = Some (fst r, (snd r)\<lparr>changeHistory := h\<rparr>)"
  proof (cases "\<not> isRoot t x \<and> isBlack t x")
    case False
    with body show ?thesis
      by (subst deleteNodeFixup_loop.simps) (auto simp: hist)
  next
    case c1: True
    show ?thesis
    proof (cases "isLeft t x")
      case c2: True
      show ?thesis
      proof (cases "isRed t (right (nd t (parent (nd t x))))")
        case c3: True
        from body c1 c2 c3 IH show ?thesis
          by (subst deleteNodeFixup_loop.simps) (simp add: hist Let_def split: if_split_asm)
      next
        case c3: False
        from body c1 c2 c3 IH show ?thesis
          by (subst deleteNodeFixup_loop.simps) (simp add: hist Let_def split: if_split_asm)
      qed
    next
      case c2: False
      show ?thesis
      proof (cases "isRed t (left (nd t (parent (nd t x))))")
        case c3: True
        from body c1 c2 c3 IH show ?thesis
          by (subst deleteNodeFixup_loop.simps) (simp add: hist Let_def split: if_split_asm)
      next
        case c3: False
        from body c1 c2 c3 IH show ?thesis
          by (subst deleteNodeFixup_loop.simps) (simp add: hist Let_def split: if_split_asm)
      qed
    qed
  qed
qed

lemma hist_loops [hist]:
  fixes t :: "'z PieceTree_scheme"
  shows "updateMetaUpward n (t\<lparr>changeHistory := h\<rparr>)
           = map_option (\<lambda>r. r\<lparr>changeHistory := h\<rparr>) (updateMetaUpward n t)"
    and "insertFixup_loop n (t\<lparr>changeHistory := h\<rparr>)
           = map_option (\<lambda>r. r\<lparr>changeHistory := h\<rparr>) (insertFixup_loop n t)"
    and "deleteNodeFixup_loop n (t\<lparr>changeHistory := h\<rparr>)
           = map_option (\<lambda>r. (fst r, (snd r)\<lparr>changeHistory := h\<rparr>)) (deleteNodeFixup_loop n t)"
  using hist_lift[where f = "updateMetaUpward n" and up = "\<lambda>h r. r\<lparr>changeHistory := h\<rparr>",
          OF updateMetaUpward_hist_Some, where t = t and h = h]
        hist_lift[where f = "insertFixup_loop n" and up = "\<lambda>h r. r\<lparr>changeHistory := h\<rparr>",
          OF insertFixup_loop_hist_Some, where t = t and h = h]
        hist_lift[where f = "deleteNodeFixup_loop n" and up = "\<lambda>h r. (fst r, (snd r)\<lparr>changeHistory := h\<rparr>)",
          OF deleteNodeFixup_loop_hist_Some, where t = t and h = h]
  by simp_all

lemma hist_insert [hist]:
  fixes t :: "'z PieceTree_scheme"
  shows "before ref new (t\<lparr>changeHistory := h\<rparr>)
           = map_option (\<lambda>r. r\<lparr>changeHistory := h\<rparr>) (before ref new t)"
    and "after ref new (t\<lparr>changeHistory := h\<rparr>)
           = map_option (\<lambda>r. r\<lparr>changeHistory := h\<rparr>) (after ref new t)"
    and "insertFixup n (t\<lparr>changeHistory := h\<rparr>)
           = map_option (\<lambda>r. r\<lparr>changeHistory := h\<rparr>) (insertFixup n t)"
    and "deleteNodeFixup n (t\<lparr>changeHistory := h\<rparr>)
           = map_option (\<lambda>r. r\<lparr>changeHistory := h\<rparr>) (deleteNodeFixup n t)"
  by (simp_all add: before_def after_def insertFixup_def deleteNodeFixup_def hist
        map_option_bind bind_map_option o_def split_def)

lemma hist_insertBefore [hist]:
  fixes t :: "'z PieceTree_scheme"
  shows "insertBefore new ref (t\<lparr>changeHistory := h\<rparr>)
           = map_option (\<lambda>r. r\<lparr>changeHistory := h\<rparr>) (insertBefore new ref t)"
    and "insertAfter new ref (t\<lparr>changeHistory := h\<rparr>)
           = map_option (\<lambda>r. r\<lparr>changeHistory := h\<rparr>) (insertAfter new ref t)"
  by (simp_all add: insertBefore_def insertAfter_def hist map_option_bind bind_map_option o_def)

lemma hist_if [hist]:
  fixes a :: "'z PieceTree_scheme"
  shows "(if c then a\<lparr>changeHistory := h\<rparr> else b\<lparr>changeHistory := h\<rparr>) = (if c then a else b)\<lparr>changeHistory := h\<rparr>"
  by simp

lemma map_option_if_Some: "(if c then map_option g A else Some (g y)) = map_option g (if c then A else Some y)"
  by simp

lemma hist_deleteNode [hist]:
  fixes t :: "'z PieceTree_scheme"
  shows "deleteNode z (t\<lparr>changeHistory := h\<rparr>)
           = map_option (\<lambda>r. r\<lparr>changeHistory := h\<rparr>) (deleteNode z t)"
  by (simp add: deleteNode_def hist map_option_bind bind_map_option o_def split_def Let_def isNil_def
        map_option_if_Some cong: if_cong)

text \<open>The operations of the piece tree below \<open>insertInner\<close>, \<open>deleteInner\<close> and
  \<open>formatInner\<close>.\<close>

lemma hist_updates [hist]:
  fixes t :: PieceTree
  shows "(t\<lparr>changeHistory := h\<rparr>)\<lparr>nodes := ns\<rparr> = (t\<lparr>nodes := ns\<rparr>)\<lparr>changeHistory := h\<rparr>"
    and "(t\<lparr>changeHistory := h\<rparr>)\<lparr>buffers := bs\<rparr> = (t\<lparr>buffers := bs\<rparr>)\<lparr>changeHistory := h\<rparr>"
  by simp_all

lemma hist_base [hist]:
  fixes t :: PieceTree
  shows "findByOffset (t\<lparr>changeHistory := h\<rparr>) offset = findByOffset t offset"
    and "getTextInBuffer (t\<lparr>changeHistory := h\<rparr>) bi s l = getTextInBuffer t bi s l"
    and "getTextInPiece (t\<lparr>changeHistory := h\<rparr>) p = getTextInPiece t p"
    and "recomputeLineFeedsCntInPiece (t\<lparr>changeHistory := h\<rparr>) p = recomputeLineFeedsCntInPiece t p"
    and "insertFixedLeft n p (t\<lparr>changeHistory := h\<rparr>)
           = map_option (apsnd (\<lambda>r. r\<lparr>changeHistory := h\<rparr>)) (insertFixedLeft n p t)"
    and "insertFixedRight n p (t\<lparr>changeHistory := h\<rparr>)
           = map_option (apsnd (\<lambda>r. r\<lparr>changeHistory := h\<rparr>)) (insertFixedRight n p t)"
    and "createPiece txt m lfc (t\<lparr>changeHistory := h\<rparr>)
           = apsnd (\<lambda>r. r\<lparr>changeHistory := h\<rparr>) (createPiece txt m lfc t)"
    and "formatNode n offset fm pps (t\<lparr>changeHistory := h\<rparr>)
           = apsnd (\<lambda>r. r\<lparr>changeHistory := h\<rparr>) (formatNode n offset fm pps t)"
    and "push c (t\<lparr>changeHistory := h\<rparr>) = t\<lparr>changeHistory := stack_push c h\<rparr>"
  by (simp_all add: findByOffset_def getTextInBuffer_def getTextInPiece_def
        recomputeLineFeedsCntInPiece_def insertFixedLeft_def insertFixedRight_def newNode_def
        createPiece_def formatNode_def push_def hist map_option_bind bind_map_option o_def
        split: option.split cong: if_cong)

lemma hist_split [hist]:
  fixes t :: PieceTree
  shows "splitNode n rem (t\<lparr>changeHistory := h\<rparr>)
           = map_option (apsnd (apsnd (\<lambda>r. r\<lparr>changeHistory := h\<rparr>))) (splitNode n rem t)"
    and "appendToNode n txt (t\<lparr>changeHistory := h\<rparr>)
           = map_option (\<lambda>r. r\<lparr>changeHistory := h\<rparr>) (appendToNode n txt t)"
    and "insertNewPiece n txt m lfc (t\<lparr>changeHistory := h\<rparr>)
           = map_option (apsnd (\<lambda>r. r\<lparr>changeHistory := h\<rparr>)) (insertNewPiece n txt m lfc t)"
  by (simp_all add: splitNode_def appendToNode_def insertNewPiece_def hist Let_def
        map_option_bind bind_map_option o_def case_prod_beta cong: if_cong)

lemma hist_flushText [hist]:
  fixes t :: PieceTree
  shows "flushText ci em nl m txt lfc n (t\<lparr>changeHistory := h\<rparr>)
           = map_option (apsnd (\<lambda>r. r\<lparr>changeHistory := h\<rparr>)) (flushText ci em nl m txt lfc n t)"
  by (simp add: flushText_def hist map_option_bind bind_map_option o_def cong: if_cong)

lemma hist_insertInner_loop [hist]:
  fixes t :: PieceTree
  shows "insertInner_loop cs ci em nl m txt lfc n (t\<lparr>changeHistory := h\<rparr>)
           = map_option (apsnd (apsnd (apsnd (\<lambda>r. r\<lparr>changeHistory := h\<rparr>))))
               (insertInner_loop cs ci em nl m txt lfc n t)"
proof (induction cs arbitrary: "txt" lfc n t)
  case Nil
  show ?case by simp
next
  case (Cons c cs)
  show ?case
    by (simp add: Cons.IH hist split: option.split)
qed

lemma deleteInner_loop_hist_Some:
  fixes t :: PieceTree
  assumes "deleteInner_loop len n lfc pc t = Some r"
  shows "deleteInner_loop len n lfc pc (t\<lparr>changeHistory := h\<rparr>)
           = Some (apsnd (apsnd (\<lambda>r. r\<lparr>changeHistory := h\<rparr>)) r)"
  apply (rule deleteInner_loop.raw_induct[where P = "\<lambda>len n lfc pc t r.
      deleteInner_loop len n lfc pc (t\<lparr>changeHistory := h\<rparr>)
           = Some (apsnd (apsnd (\<lambda>r. r\<lparr>changeHistory := h\<rparr>)) r)", OF _ assms])
  apply (subst deleteInner_loop.simps)
  apply (auto simp: hist Let_def bind_eq_Some_conv split: if_split_asm cong: if_cong)
  done

lemma formatInner_loop_hist_Some:
  fixes t :: PieceTree
  assumes "formatInner_loop len offset n lfc m ty pps t = Some r"
  shows "formatInner_loop len offset n lfc m ty pps (t\<lparr>changeHistory := h\<rparr>)
           = Some (apsnd (apsnd (\<lambda>r. r\<lparr>changeHistory := h\<rparr>)) r)"
  apply (rule formatInner_loop.raw_induct[where P = "\<lambda>len offset n lfc m ty pps t r.
      formatInner_loop len offset n lfc m ty pps (t\<lparr>changeHistory := h\<rparr>)
           = Some (apsnd (apsnd (\<lambda>r. r\<lparr>changeHistory := h\<rparr>)) r)", OF _ assms])
  apply (subst formatInner_loop.simps)
  apply (auto simp: hist Let_def bind_eq_Some_conv case_prod_beta split: if_split_asm cong: if_cong)
  done

lemma hist_inner_loops [hist]:
  fixes t :: PieceTree
  shows "deleteInner_loop len n lfc pc (t\<lparr>changeHistory := h\<rparr>)
           = map_option (apsnd (apsnd (\<lambda>r. r\<lparr>changeHistory := h\<rparr>))) (deleteInner_loop len n lfc pc t)"
    and "formatInner_loop len offset n lfc m ty pps (t\<lparr>changeHistory := h\<rparr>)
           = map_option (apsnd (apsnd (\<lambda>r. r\<lparr>changeHistory := h\<rparr>))) (formatInner_loop len offset n lfc m ty pps t)"
  using hist_lift[where f = "deleteInner_loop len n lfc pc"
            and up = "\<lambda>h. apsnd (apsnd (\<lambda>r. r\<lparr>changeHistory := h\<rparr>))",
          OF deleteInner_loop_hist_Some, where t = t and h = h]
        hist_lift[where f = "formatInner_loop len offset n lfc m ty pps"
            and up = "\<lambda>h. apsnd (apsnd (\<lambda>r. r\<lparr>changeHistory := h\<rparr>))",
          OF formatInner_loop_hist_Some, where t = t and h = h]
  by simp_all















end
